theory Spec2Isabelle
  imports Complex_Main "HOL-Library.Word"
begin

section \<open>Data model\<close>

text \<open>
  The exceptions that can end the program: \<^verbatim>\<open>std::length_error\<close> (a negative length
  converted to \<^verbatim>\<open>size_t\<close>), \<^verbatim>\<open>std::out_of_range\<close> (\<^verbatim>\<open>std::map::at\<close>),
  \<^verbatim>\<open>std::filesystem::filesystem_error\<close> (\<^verbatim>\<open>create_directory\<close>), and the
  \<^verbatim>\<open>ParquetException\<close> thrown by \<^verbatim>\<open>PARQUET_ASSIGN_OR_THROW\<close> (open) and
  \<^verbatim>\<open>PARQUET_THROW_NOT_OK\<close> (write).
\<close>

datatype error =
    Length_error
  | Out_of_range
  | Filesystem_error
  | Open_failed
  | Write_failed

text \<open>
  \<^verbatim>\<open>parquet::Encoding::type\<close>, the enumeration of the Parquet library the program
  selects encodings from.
\<close>

datatype parquet_encoding =
    PLAIN
  | PLAIN_DICTIONARY
  | RLE
  | BIT_PACKED
  | DELTA_BINARY_PACKED
  | DELTA_LENGTH_BYTE_ARRAY
  | DELTA_BYTE_ARRAY
  | RLE_DICTIONARY
  | BYTE_STREAM_SPLIT
  | UNDEFINED
  | UNKNOWN

text \<open>
  The Arrow data types the program names: \<^verbatim>\<open>arrow::utf8()\<close>, \<^verbatim>\<open>arrow::float32()\<close>,
  \<^verbatim>\<open>arrow::int32()\<close>, \<^verbatim>\<open>arrow::int64()\<close>, \<^verbatim>\<open>arrow::binary()\<close>.
\<close>

datatype data_type = Utf8 | Float32 | Int32 | Int64 | Binary

text \<open>\<^verbatim>\<open>struct ColumnSpec\<close>.\<close>

record ColumnSpec =
  encoding_name :: string
  encoding :: parquet_encoding
  type_name :: string
  arrow_type :: data_type

section \<open>Writer properties\<close>

text \<open>
  The program configures a \<^verbatim>\<open>parquet::WriterProperties::Builder\<close> through method calls.
  The builder is the library's; the model records the calls made on it, in order, and the
  built properties are that record of calls.
\<close>

datatype builder_call =
    Enable_dictionary
  | Disable_dictionary
  | Set_encoding string parquet_encoding

type_synonym writer_properties = "builder_call list"

text \<open>Lines 42 to 52 of \<^verbatim>\<open>write_parquet\<close>: the three-way branch on the encoding.\<close>

definition build_properties :: "ColumnSpec \<Rightarrow> writer_properties" where
  "build_properties spec =
     (if encoding spec = PLAIN_DICTIONARY \<or> encoding spec = RLE_DICTIONARY then
        [Enable_dictionary]
      else if encoding spec = DELTA_BINARY_PACKED \<or> encoding spec = DELTA_LENGTH_BYTE_ARRAY then
        [Disable_dictionary, Set_encoding ''data'' (encoding spec)]
      else
        [Set_encoding ''data'' (encoding spec)])"

section \<open>The specification table\<close>

definition mk_spec :: "string \<Rightarrow> parquet_encoding \<Rightarrow> string \<Rightarrow> data_type \<Rightarrow> ColumnSpec" where
  "mk_spec n e t a = \<lparr>encoding_name = n, encoding = e, type_name = t, arrow_type = a\<rparr>"

text \<open>The vector \<^verbatim>\<open>specs\<close> of \<^verbatim>\<open>main\<close>, in source order.\<close>

definition specs :: "ColumnSpec list" where
  "specs =
    [mk_spec ''PLAIN'' PLAIN ''string'' Utf8,
     mk_spec ''PLAIN'' PLAIN ''float'' Float32,
     mk_spec ''PLAIN'' PLAIN ''int32'' Int32,
     mk_spec ''PLAIN'' PLAIN ''binary'' Binary,

     mk_spec ''PLAIN_DICTIONARY'' PLAIN_DICTIONARY ''string'' Utf8,
     mk_spec ''PLAIN_DICTIONARY'' PLAIN_DICTIONARY ''float'' Float32,
     mk_spec ''PLAIN_DICTIONARY'' PLAIN_DICTIONARY ''int32'' Int32,
     mk_spec ''PLAIN_DICTIONARY'' PLAIN_DICTIONARY ''int64'' Int64,
     mk_spec ''PLAIN_DICTIONARY'' PLAIN_DICTIONARY ''binary'' Binary,

     mk_spec ''RLE_DICTIONARY'' RLE_DICTIONARY ''string'' Utf8,
     mk_spec ''RLE_DICTIONARY'' RLE_DICTIONARY ''float'' Float32,
     mk_spec ''RLE_DICTIONARY'' RLE_DICTIONARY ''int32'' Int32,
     mk_spec ''RLE_DICTIONARY'' RLE_DICTIONARY ''int64'' Int64,
     mk_spec ''RLE_DICTIONARY'' RLE_DICTIONARY ''binary'' Binary,

     mk_spec ''RLE'' RLE ''string'' Utf8,
     mk_spec ''RLE'' RLE ''float'' Float32,
     mk_spec ''RLE'' RLE ''int32'' Int32,
     mk_spec ''RLE'' RLE ''int64'' Int64,
     mk_spec ''RLE'' RLE ''binary'' Binary,

     mk_spec ''DELTA_BINARY_PACKED'' DELTA_BINARY_PACKED ''int32'' Int32,
     mk_spec ''DELTA_BINARY_PACKED'' DELTA_BINARY_PACKED ''int64'' Int64,

     mk_spec ''DELTA_LENGTH_BYTE_ARRAY'' DELTA_LENGTH_BYTE_ARRAY ''binary'' Binary]"

section \<open>Arrays and tables\<close>

text \<open>
  An Arrow array by the builder that made it: \<^verbatim>\<open>Int32Builder\<close> (\<^verbatim>\<open>int32_t\<close> values),
  \<^verbatim>\<open>FloatBuilder\<close> (a \<^verbatim>\<open>float\<close>, as the real number it denotes), \<^verbatim>\<open>Int64Builder\<close>
  (\<^verbatim>\<open>int64_t\<close>, read by \<^const>\<open>sint\<close>), \<^verbatim>\<open>StringBuilder\<close> and \<^verbatim>\<open>BinaryBuilder\<close>.
\<close>

datatype array =
    Int32Array "int list"
  | FloatArray "real list"
  | Int64Array "64 word list"
  | StringArray "string list"
  | BinaryArray "8 word list list"

text \<open>The one-column table of \<^verbatim>\<open>write_parquet\<close>: a field name, its type, the column.\<close>

record table =
  field_name :: string
  field_type :: data_type
  column :: array

section \<open>Files\<close>

text \<open>
  The file system as the program sees it: relative path names, each absent, a directory
  or a regular file with its bytes. The working directory is the empty path. Empty
  components of a path name do not count (\<^verbatim>\<open>data/\<close> is \<^verbatim>\<open>data\<close>, \<^verbatim>\<open>data//x\<close> is
  \<^verbatim>\<open>data/x\<close>); the components \<^verbatim>\<open>.\<close> and \<^verbatim>\<open>..\<close> and links are not resolved, they are
  names like any other.
\<close>

datatype node = Directory | Regular_file "8 word list"

type_synonym filesystem = "string \<rightharpoonup> node"

fun normalize :: "string \<Rightarrow> string" where
  "normalize [] = []"
| "normalize [c] = (if c = CHR ''/'' then [] else [c])"
| "normalize (c # d # cs) =
     (if c = CHR ''/'' \<and> d = CHR ''/'' then normalize (d # cs) else c # normalize (d # cs))"

definition parent_path :: "string \<Rightarrow> string" where
  "parent_path p = rev (tl (dropWhile (\<lambda>c. c \<noteq> CHR ''/'') (rev p)))"

definition is_directory :: "filesystem \<Rightarrow> string \<Rightarrow> bool" where
  "is_directory fs p \<longleftrightarrow> p = [] \<or> fs p = Some Directory"

section \<open>The libraries and the operating system\<close>

text \<open>
  The random engine, the two distributions and the Parquet writer are library code, and
  the operating system decides what the file system permits. The program is modelled over
  any implementation of them:
  \<^item> \<open>rng_init s\<close> is the state of \<^verbatim>\<open>std::mt19937 rng(s)\<close>;
  \<^item> \<open>rng_call g\<close> is \<^verbatim>\<open>rng()\<close>: a 32-bit output and the next state;
  \<^item> \<open>uniform_int_distribution a b g\<close> is \<^verbatim>\<open>std::uniform_int_distribution<int>(a, b)(rng)\<close>;
  \<^item> \<open>uniform_real_distribution a b g\<close> is
    \<^verbatim>\<open>std::uniform_real_distribution<float>(a, b)(rng)\<close>;
  \<^item> \<open>WriteTable t n props\<close> is \<^verbatim>\<open>parquet::arrow::WriteTable\<close> on a fresh stream: whether
    the returned status is OK, and the bytes that reached the stream;
  \<^item> \<open>mkdir_refused fs p\<close>: with the file system as \<open>fs\<close>, the operating system refuses
    to create the directory \<open>p\<close> for a reason other than what is at \<open>p\<close> and at its
    parent (permissions, a read-only medium, quota, the length of the name);
  \<^item> \<open>open_refused fs p\<close>: the same for opening the file \<open>p\<close> for writing.
\<close>

record 'g library =
  rng_init :: "nat \<Rightarrow> 'g"
  rng_call :: "'g \<Rightarrow> 32 word \<times> 'g"
  uniform_int_distribution :: "int \<Rightarrow> int \<Rightarrow> 'g \<Rightarrow> int \<times> 'g"
  uniform_real_distribution :: "real \<Rightarrow> real \<Rightarrow> 'g \<Rightarrow> real \<times> 'g"
  WriteTable :: "table \<Rightarrow> nat \<Rightarrow> writer_properties \<Rightarrow> bool \<times> 8 word list"
  mkdir_refused :: "filesystem \<Rightarrow> string \<Rightarrow> bool"
  open_refused :: "filesystem \<Rightarrow> string \<Rightarrow> bool"

text \<open>
  What the C++ standard promises of the distributions: a result \<open>i\<close> with
  \<open>a \<le> i \<le> b\<close> for the integer one, a result \<open>x\<close> with \<open>a \<le> x < b\<close> for the real one.
\<close>

definition distributions_conform :: "'g library \<Rightarrow> bool" where
  "distributions_conform lib \<longleftrightarrow>
     (\<forall>a b g. a \<le> b \<longrightarrow>
        a \<le> fst (uniform_int_distribution lib a b g) \<and>
        fst (uniform_int_distribution lib a b g) \<le> b) \<and>
     (\<forall>a b g. a < b \<longrightarrow>
        a \<le> fst (uniform_real_distribution lib a b g) \<and>
        fst (uniform_real_distribution lib a b g) < b)"

section \<open>Value generation\<close>

text \<open>
  \<^verbatim>\<open>generate_array\<close>: \<open>num_rows\<close> calls of \<open>func\<close>, each appended to the builder, on the
  shared generator state. An exception of \<open>func\<close> ends the loop.
\<close>

fun generate_loop ::
  "('g \<Rightarrow> error + 'a \<times> 'g) \<Rightarrow> nat \<Rightarrow> 'g \<Rightarrow> error + 'a list \<times> 'g" where
  "generate_loop func 0 g = Inr ([], g)"
| "generate_loop func (Suc n) g =
     (case func g of
        Inl e \<Rightarrow> Inl e
      | Inr (v, g') \<Rightarrow>
          (case generate_loop func n g' of
             Inl e \<Rightarrow> Inl e
           | Inr (vs, g'') \<Rightarrow> Inr (v # vs, g'')))"

definition generate_array ::
  "('g \<Rightarrow> error + 'a \<times> 'g) \<Rightarrow> int \<Rightarrow> 'g \<Rightarrow> error + 'a list \<times> 'g" where
  "generate_array func num_rows g = generate_loop func (nat num_rows) g"

text \<open>The five lambdas of \<^verbatim>\<open>main\<close>, lines 67 to 85.\<close>

definition int32_value :: "'g library \<Rightarrow> 'g \<Rightarrow> error + int \<times> 'g" where
  "int32_value lib g = Inr (uniform_int_distribution lib 0 10000 g)"

definition float_value :: "'g library \<Rightarrow> 'g \<Rightarrow> error + real \<times> 'g" where
  "float_value lib g = Inr (uniform_real_distribution lib 0 100 g)"

text \<open>\<^verbatim>\<open>static_cast<int64_t>(r) << 8\<close> for a generator output \<open>r\<close>.\<close>

definition shift_int64 :: "32 word \<Rightarrow> 64 word" where
  "shift_int64 r = push_bit 8 (ucast r :: 64 word)"

definition int64_value :: "'g library \<Rightarrow> 'g \<Rightarrow> error + 64 word \<times> 'g" where
  "int64_value lib g = (case rng_call lib g of (r, g') \<Rightarrow> Inr (shift_int64 r, g'))"

text \<open>\<^verbatim>\<open>'a' + (r % 26)\<close>, converted to \<^verbatim>\<open>char\<close>.\<close>

definition letter :: "32 word \<Rightarrow> char" where
  "letter r = char_of (97 + unat r mod 26)"

definition string_value :: "'g library \<Rightarrow> 'g \<Rightarrow> error + string \<times> 'g" where
  "string_value lib g =
     (case uniform_int_distribution lib 5 10 g of (len, g1) \<Rightarrow>
        (case rng_call lib g1 of (r, g2) \<Rightarrow>
           if len < 0 then Inl Length_error
           else Inr (replicate (nat len) (letter r), g2)))"

text \<open>The loop \<^verbatim>\<open>for (int i = 0; i < len; ++i) bytes[i] = rng() % 256\<close>.\<close>

fun fill_bytes :: "'g library \<Rightarrow> nat \<Rightarrow> 'g \<Rightarrow> 8 word list \<times> 'g" where
  "fill_bytes lib 0 g = ([], g)"
| "fill_bytes lib (Suc n) g =
     (case rng_call lib g of (r, g') \<Rightarrow>
        (case fill_bytes lib n g' of (bs, g'') \<Rightarrow> (ucast (r mod 256) # bs, g'')))"

definition binary_value :: "'g library \<Rightarrow> 'g \<Rightarrow> error + 8 word list \<times> 'g" where
  "binary_value lib g =
     (case uniform_int_distribution lib 3 15 g of (len, g1) \<Rightarrow>
        if len < 0 then Inl Length_error
        else Inr (fill_bytes lib (nat len) g1))"

text \<open>
  Lines 63 to 85 of \<^verbatim>\<open>main\<close>: the five columns, generated in this order on the generator
  seeded with 42, and stored under their type names.
\<close>

definition base_data :: "'g library \<Rightarrow> error + (string \<rightharpoonup> array) \<times> 'g" where
  "base_data lib =
     (let num_rows = 1000 in
      (case generate_array (int32_value lib) num_rows (rng_init lib 42) of
         Inl e \<Rightarrow> Inl e
       | Inr (a1, g1) \<Rightarrow>
      (case generate_array (float_value lib) num_rows g1 of
         Inl e \<Rightarrow> Inl e
       | Inr (a2, g2) \<Rightarrow>
      (case generate_array (int64_value lib) num_rows g2 of
         Inl e \<Rightarrow> Inl e
       | Inr (a3, g3) \<Rightarrow>
      (case generate_array (string_value lib) num_rows g3 of
         Inl e \<Rightarrow> Inl e
       | Inr (a4, g4) \<Rightarrow>
      (case generate_array (binary_value lib) num_rows g4 of
         Inl e \<Rightarrow> Inl e
       | Inr (a5, g5) \<Rightarrow>
           Inr ([''int32'' \<mapsto> Int32Array a1, ''float'' \<mapsto> FloatArray a2,
                 ''int64'' \<mapsto> Int64Array a3, ''string'' \<mapsto> StringArray a4,
                 ''binary'' \<mapsto> BinaryArray a5], g5)))))))"

section \<open>Creating directories and opening files\<close>

text \<open>
  \<^verbatim>\<open>std::filesystem::create_directory(p)\<close>: one directory, not its parents. An existing
  directory is no error; a regular file in its place, a missing parent and a refusal of
  the operating system throw.
\<close>

definition create_directory :: "'g library \<Rightarrow> string \<Rightarrow> filesystem \<Rightarrow> error + filesystem" where
  "create_directory lib p fs =
     (let q = normalize p in
      if p = [] \<or> mkdir_refused lib fs p then Inl Filesystem_error
      else
        (case fs q of
           Some Directory \<Rightarrow> Inr fs
         | Some (Regular_file _) \<Rightarrow> Inl Filesystem_error
         | None \<Rightarrow>
             if is_directory fs (parent_path q) then Inr (fs(q \<mapsto> Directory))
             else Inl Filesystem_error))"

text \<open>
  \<^verbatim>\<open>arrow::io::FileOutputStream::Open(filename)\<close>: creates the file or truncates it, and
  returns the stream, which is known by the file it writes; fails on a name that is empty
  or ends in a slash, on a directory, where the parent directory is missing and where the
  operating system refuses.
\<close>

definition FileOutputStream_Open ::
  "'g library \<Rightarrow> string \<Rightarrow> filesystem \<Rightarrow> error + string \<times> filesystem" where
  "FileOutputStream_Open lib p fs =
     (let q = normalize p in
      if p = [] \<or> last p = CHR ''/'' \<or> open_refused lib fs p \<or> fs q = Some Directory \<or>
         \<not> is_directory fs (parent_path q)
      then Inl Open_failed
      else Inr (q, fs(q \<mapsto> Regular_file [])))"

record state =
  files :: filesystem
  stdout :: string

section \<open>Writing the files\<close>

definition directory_of :: "ColumnSpec \<Rightarrow> string" where
  "directory_of spec = ''data/'' @ encoding_name spec"

definition filename_of :: "ColumnSpec \<Rightarrow> string" where
  "filename_of spec = ''data/'' @ encoding_name spec @ ''/'' @ type_name spec @ ''.parquet''"

text \<open>
  \<^verbatim>\<open>write_parquet\<close>. The result is the exception that ended it, if any, and the state it
  left.
\<close>

definition write_parquet ::
  "'g library \<Rightarrow> ColumnSpec \<Rightarrow> array \<Rightarrow> state \<Rightarrow> error option \<times> state" where
  "write_parquet lib spec arr s =
     (let tbl = \<lparr>field_name = ''data'', field_type = arrow_type spec, column = arr\<rparr> in
      (case create_directory lib (directory_of spec) (files s) of
         Inl e \<Rightarrow> (Some e, s)
       | Inr fs1 \<Rightarrow>
           (let filename = filename_of spec;
                props = build_properties spec in
            (case FileOutputStream_Open lib filename fs1 of
               Inl e \<Rightarrow> (Some e, s\<lparr>files := fs1\<rparr>)
             | Inr (outfile, fs2) \<Rightarrow>
                 (case WriteTable lib tbl 1024 props of
                    (ok, bytes) \<Rightarrow>
                      (let fs3 = fs2(outfile \<mapsto> Regular_file bytes) in
                       if ok then
                         (None, \<lparr>files = fs3,
                                 stdout = stdout s @ ''Wrote '' @ filename @ [CHR 0x0A]\<rparr>)
                       else (Some Write_failed, s\<lparr>files := fs3\<rparr>)))))))"

text \<open>The loop of lines 124 to 126, with the lookup \<^verbatim>\<open>base_data.at(spec.type_name)\<close>.\<close>

fun write_all ::
  "'g library \<Rightarrow> (string \<rightharpoonup> array) \<Rightarrow> ColumnSpec list \<Rightarrow> state \<Rightarrow> error option \<times> state" where
  "write_all lib base [] s = (None, s)"
| "write_all lib base (spec # rest) s =
     (case base (type_name spec) of
        None \<Rightarrow> (Some Out_of_range, s)
      | Some arr \<Rightarrow>
          (case write_parquet lib spec arr s of
             (Some e, s') \<Rightarrow> (Some e, s')
           | (None, s') \<Rightarrow> write_all lib base rest s'))"

text \<open>
  \<^verbatim>\<open>main\<close>, from a file system \<open>fs\<close> and an empty standard output: \<open>None\<close> is the return
  of 0, \<open>Some e\<close> the exception that ended the program.
\<close>

definition main :: "'g library \<Rightarrow> filesystem \<Rightarrow> error option \<times> state" where
  "main lib fs =
     (case base_data lib of
        Inl e \<Rightarrow> (Some e, \<lparr>files = fs, stdout = []\<rparr>)
      | Inr (base, g) \<Rightarrow> write_all lib base specs \<lparr>files = fs, stdout = []\<rparr>)"

text \<open>The Arrow type of an array, as its builder fixes it.\<close>

fun array_type :: "array \<Rightarrow> data_type" where
  "array_type (Int32Array _) = Int32"
| "array_type (FloatArray _) = Float32"
| "array_type (Int64Array _) = Int64"
| "array_type (StringArray _) = Utf8"
| "array_type (BinaryArray _) = Binary"

text \<open>The line \<^verbatim>\<open>write_parquet\<close> prints for a specification.\<close>

definition wrote_line :: "ColumnSpec \<Rightarrow> string" where
  "wrote_line spec = ''Wrote '' @ filename_of spec @ [CHR 0x0A]"

text \<open>The bytes the writer produces for a specification and its column.\<close>

definition written_bytes :: "'g library \<Rightarrow> ColumnSpec \<Rightarrow> array \<Rightarrow> 8 word list" where
  "written_bytes lib spec arr =
     snd (WriteTable lib \<lparr>field_name = ''data'', field_type = arrow_type spec, column = arr\<rparr>
            1024 (build_properties spec))"

text \<open>
  A file system is ready for a specification when nothing but a directory is in the place
  of its directory and no directory is in the place of its file.
\<close>

definition ready :: "filesystem \<Rightarrow> ColumnSpec \<Rightarrow> bool" where
  "ready fs x \<longleftrightarrow>
     (fs (directory_of x) = None \<or> fs (directory_of x) = Some Directory) \<and>
     fs (filename_of x) \<noteq> Some Directory"

text \<open>
  The path names of a specification are plain when they have no empty component, so that
  they name their files as they are written.
\<close>

definition plain_names :: "ColumnSpec \<Rightarrow> bool" where
  "plain_names x \<longleftrightarrow>
     normalize (directory_of x) = directory_of x \<and> normalize (filename_of x) = filename_of x"

section \<open>Drawing from the random source, as the specification describes it\<close>

text \<open>
  For a draw \<open>d\<close>, which takes a state of the source to a value and the next state:
  \<open>state_after d g i\<close> is the state of the source after \<open>i\<close> draws from \<open>g\<close>, and
  \<open>drawn d g n\<close> are the first \<open>n\<close> values drawn from \<open>g\<close>, each from the state the one
  before it left.
\<close>

definition state_after :: "('g \<Rightarrow> 'a \<times> 'g) \<Rightarrow> 'g \<Rightarrow> nat \<Rightarrow> 'g" where
  "state_after d g i = ((\<lambda>s. snd (d s)) ^^ i) g"

definition drawn :: "('g \<Rightarrow> 'a \<times> 'g) \<Rightarrow> 'g \<Rightarrow> nat \<Rightarrow> 'a list" where
  "drawn d g n = map (\<lambda>i. fst (d (state_after d g i))) [0..<n]"

text \<open>
  One text value: a length from the integer distribution on \<open>[5, 10]\<close>, then one output
  of the generator for the letter, repeated.
\<close>

definition string_draw :: "'g library \<Rightarrow> 'g \<Rightarrow> string \<times> 'g" where
  "string_draw lib g =
     (let len = fst (uniform_int_distribution lib 5 10 g);
          g1 = snd (uniform_int_distribution lib 5 10 g)
      in (replicate (nat len) (letter (fst (rng_call lib g1))), snd (rng_call lib g1)))"

text \<open>
  One binary value: a length from the integer distribution on \<open>[3, 15]\<close>, then one output
  of the generator for each byte, reduced modulo 256.
\<close>

definition binary_draw :: "'g library \<Rightarrow> 'g \<Rightarrow> 8 word list \<times> 'g" where
  "binary_draw lib g =
     (let len = fst (uniform_int_distribution lib 3 15 g);
          g1 = snd (uniform_int_distribution lib 3 15 g)
      in (map (\<lambda>r. ucast (r mod 256)) (drawn (rng_call lib) g1 (nat len)),
          state_after (rng_call lib) g1 (nat len)))"

section \<open>A small conforming library\<close>

text \<open>
  One implementation of the library interface, for concrete runs: a linear congruential
  generator on 32 bits, distributions that reduce one output into the requested range,
  a writer that emits the four magic bytes and reports success, and an operating system
  that refuses nothing.
\<close>

definition lcg_step :: "32 word \<Rightarrow> 32 word" where
  "lcg_step g = g * 1664525 + 1013904223"

definition lcg_library :: "32 word library" where
  "lcg_library =
     \<lparr>rng_init = word_of_nat,
      rng_call = (\<lambda>g. (lcg_step g, lcg_step g)),
      uniform_int_distribution = (\<lambda>a b g. (a + uint (lcg_step g) mod (b - a + 1), lcg_step g)),
      uniform_real_distribution =
        (\<lambda>a b g. (a + (b - a) * (real_of_int (uint (lcg_step g)) / 2 ^ 32), lcg_step g)),
      WriteTable = (\<lambda>t n props. (True, [80, 65, 82, 49])),
      mkdir_refused = (\<lambda>fs p. False),
      open_refused = (\<lambda>fs p. False)\<rparr>"

section \<open>Generation under conforming distributions\<close>

lemma generate_loop_all:
  assumes "\<And>g. \<exists>v g'. func g = Inr (v, g') \<and> P v"
  shows "\<exists>vs g'. generate_loop func n g = Inr (vs, g') \<and> length vs = n \<and> list_all P vs"
proof (induction n arbitrary: g)
  case 0
  show ?case by simp
next
  case (Suc n)
  from assms obtain v g1 where f: "func g = Inr (v, g1)" and p: "P v" by blast
  from Suc.IH obtain vs g2 where
    r: "generate_loop func n g1 = Inr (vs, g2)" and l: "length vs = n" and a: "list_all P vs"
    by blast
  show ?case using f p r l a by simp
qed

lemma generate_array_all:
  assumes "\<And>g. \<exists>v g'. func g = Inr (v, g') \<and> P v"
  shows "\<exists>vs g'. generate_array func num_rows g = Inr (vs, g') \<and>
           length vs = nat num_rows \<and> list_all P vs"
  unfolding generate_array_def using assms by (rule generate_loop_all)

lemma int32_value_conform:
  assumes "distributions_conform lib"
  shows "\<exists>v g'. int32_value lib g = Inr (v, g') \<and> 0 \<le> v \<and> v \<le> 10000"
proof -
  from assms have "0 \<le> fst (uniform_int_distribution lib 0 10000 g) \<and>
      fst (uniform_int_distribution lib 0 10000 g) \<le> 10000"
    unfolding distributions_conform_def by simp
  then show ?thesis
    by (cases "uniform_int_distribution lib 0 10000 g") (simp add: int32_value_def)
qed

lemma float_value_conform:
  assumes "distributions_conform lib"
  shows "\<exists>v g'. float_value lib g = Inr (v, g') \<and> 0 \<le> v \<and> v < 100"
proof -
  from assms have "0 \<le> fst (uniform_real_distribution lib 0 100 g) \<and>
      fst (uniform_real_distribution lib 0 100 g) < 100"
    unfolding distributions_conform_def by simp
  then show ?thesis
    by (cases "uniform_real_distribution lib 0 100 g") (simp add: float_value_def)
qed

lemma int64_value_shift:
  "\<exists>v g'. int64_value lib g = Inr (v, g') \<and> (\<exists>r. v = shift_int64 r)"
  by (cases "rng_call lib g") (auto simp: int64_value_def)

lemma letter_lowercase: "letter r \<in> set ''abcdefghijklmnopqrstuvwxyz''"
proof -
  have "unat r mod 26 < 26" by simp
  then have "unat r mod 26 \<in> {0..<26}" by simp
  then have k: "unat r mod 26 \<in> set [0..<26]" by simp
  have "list_all (\<lambda>k::nat. char_of (97 + k) \<in> set ''abcdefghijklmnopqrstuvwxyz'') [0..<26]"
    by code_simp
  with k show ?thesis
    unfolding letter_def list_all_iff by blast
qed

lemma length_fill_bytes: "length (fst (fill_bytes lib n g)) = n"
proof (induction n arbitrary: g)
  case 0
  show ?case by simp
next
  case (Suc n)
  obtain r g1 where c: "rng_call lib g = (r, g1)" by force
  obtain bs g2 where f: "fill_bytes lib n g1 = (bs, g2)" by force
  from Suc.IH [of g1] f have "length bs = n" by simp
  with c f show ?case by simp
qed

lemma string_value_conform:
  assumes "distributions_conform lib"
  shows "\<exists>v g'. string_value lib g = Inr (v, g') \<and>
           (\<exists>n r. v = replicate n (letter r) \<and> 5 \<le> n \<and> n \<le> 10)"
proof -
  obtain len g1 where u: "uniform_int_distribution lib 5 10 g = (len, g1)" by force
  obtain r g2 where c: "rng_call lib g1 = (r, g2)" by force
  from assms have "5 \<le> fst (uniform_int_distribution lib 5 10 g) \<and>
      fst (uniform_int_distribution lib 5 10 g) \<le> 10"
    unfolding distributions_conform_def by simp
  with u have b: "5 \<le> len" "len \<le> 10" by simp_all
  then have "5 \<le> nat len" "nat len \<le> 10" by simp_all
  moreover have "string_value lib g = Inr (replicate (nat len) (letter r), g2)"
    using u c b by (simp add: string_value_def)
  ultimately show ?thesis by blast
qed

lemma binary_value_conform:
  assumes "distributions_conform lib"
  shows "\<exists>v g'. binary_value lib g = Inr (v, g') \<and> 3 \<le> length v \<and> length v \<le> 15"
proof -
  obtain len g1 where u: "uniform_int_distribution lib 3 15 g = (len, g1)" by force
  from assms have "3 \<le> fst (uniform_int_distribution lib 3 15 g) \<and>
      fst (uniform_int_distribution lib 3 15 g) \<le> 15"
    unfolding distributions_conform_def by simp
  with u have b: "3 \<le> len" "len \<le> 15" by simp_all
  have "binary_value lib g = Inr (fill_bytes lib (nat len) g1)"
    using u b by (simp add: binary_value_def)
  moreover have "length (fst (fill_bytes lib (nat len) g1)) = nat len"
    by (rule length_fill_bytes)
  ultimately show ?thesis using b
    by (cases "fill_bytes lib (nat len) g1") auto
qed

section \<open>The small library conforms\<close>

lemma lcg_int_range:
  fixes a b x :: int
  assumes "a \<le> b"
  shows "a \<le> a + x mod (b - a + 1) \<and> a + x mod (b - a + 1) \<le> b"
proof -
  from assms have p: "0 < b - a + 1" by simp
  have "0 \<le> x mod (b - a + 1)" using p by simp
  moreover have "x mod (b - a + 1) < b - a + 1" using p by (rule pos_mod_bound)
  ultimately show ?thesis by simp
qed

lemma lcg_real_range:
  fixes a b :: real and u :: int
  assumes "a < b" and "0 \<le> u" and "u < 2 ^ 32"
  shows "a \<le> a + (b - a) * (real_of_int u / 2 ^ 32) \<and>
         a + (b - a) * (real_of_int u / 2 ^ 32) < b"
proof -
  let ?t = "real_of_int u / 2 ^ 32"
  from assms(3) have "real_of_int u < real_of_int (2 ^ 32)" by (simp only: of_int_less_iff)
  then have t1: "?t < 1" by simp
  from assms(2) have t0: "0 \<le> ?t" by simp
  from assms(1) have d: "0 < b - a" by simp
  from d t0 have "0 \<le> (b - a) * ?t" by simp
  moreover from d t1 have "(b - a) * ?t < (b - a) * 1"
    by (rule mult_strict_left_mono [rotated])
  ultimately show ?thesis by simp
qed

lemma uint32_range: "0 \<le> uint (w :: 32 word) \<and> uint w < 2 ^ 32"
  using uint_lt2p [of w] by simp

lemma lcg_library_conform: "distributions_conform lcg_library"
  unfolding distributions_conform_def lcg_library_def
  using lcg_int_range lcg_real_range uint32_range by (simp del: of_int_uint)

section \<open>The shifted 64-bit value\<close>

lemma uint_shift_int64: "uint (shift_int64 r) = uint r * 256"
proof -
  have "uint r < 2 ^ 32" using uint_lt2p [of r] by simp
  then have b: "uint r * 256 < 2 ^ 64" by simp
  have c: "uint (ucast r :: 64 word) = uint r"
    by (simp add: uint_up_ucast is_up)
  have "uint (shift_int64 r) = (uint r * 256) mod 2 ^ 64"
    by (simp add: shift_int64_def push_bit_eq_mult uint_word_ariths c)
  also have "\<dots> = uint r * 256"
    using b by simp
  finally show ?thesis .
qed

lemma sint_shift_int64: "sint (shift_int64 r) = uint r * 256"
proof -
  have "uint r < 2 ^ 32" using uint_lt2p [of r] by simp
  then have "uint r * 256 < 2 ^ 63" by simp
  moreover have "- (2 ^ 63) \<le> uint r * 256"
    by (rule order_trans [of _ 0]) simp_all
  ultimately have "signed_take_bit 63 (uint r * 256) = uint r * 256"
    by (simp add: signed_take_bit_int_eq_self)
  then show ?thesis by (simp add: sint_uint uint_shift_int64)
qed

lemma shift_int64_bounds:
  "0 \<le> sint (shift_int64 r) \<and> 256 dvd sint (shift_int64 r) \<and>
   sint (shift_int64 r) \<le> (2 ^ 32 - 1) * 256"
proof -
  have "uint r < 2 ^ 32" using uint_lt2p [of r] by simp
  then show ?thesis by (simp add: sint_shift_int64)
qed

section \<open>The five columns\<close>

lemma base_data_conform:
  assumes "distributions_conform lib"
  obtains a1 g1 a2 g2 a3 g3 a4 g4 a5 g5 where
    "generate_array (int32_value lib) 1000 (rng_init lib 42) = Inr (a1, g1)"
    "generate_array (float_value lib) 1000 g1 = Inr (a2, g2)"
    "generate_array (int64_value lib) 1000 g2 = Inr (a3, g3)"
    "generate_array (string_value lib) 1000 g3 = Inr (a4, g4)"
    "generate_array (binary_value lib) 1000 g4 = Inr (a5, g5)"
    "base_data lib =
       Inr ([''int32'' \<mapsto> Int32Array a1, ''float'' \<mapsto> FloatArray a2,
             ''int64'' \<mapsto> Int64Array a3, ''string'' \<mapsto> StringArray a4,
             ''binary'' \<mapsto> BinaryArray a5], g5)"
    "length a1 = 1000" "list_all (\<lambda>v. 0 \<le> v \<and> v \<le> 10000) a1"
    "length a2 = 1000" "list_all (\<lambda>v. 0 \<le> v \<and> v < 100) a2"
    "length a3 = 1000" "list_all (\<lambda>v. \<exists>r. v = shift_int64 r) a3"
    "length a4 = 1000"
    "list_all (\<lambda>v. \<exists>n r. v = replicate n (letter r) \<and> 5 \<le> n \<and> n \<le> 10) a4"
    "length a5 = 1000" "list_all (\<lambda>v. 3 \<le> length v \<and> length v \<le> 15) a5"
proof -
  obtain a1 g1 where 1: "generate_array (int32_value lib) 1000 (rng_init lib 42) = Inr (a1, g1)"
      "length a1 = nat 1000" "list_all (\<lambda>v. 0 \<le> v \<and> v \<le> 10000) a1"
    using generate_array_all [where func = "int32_value lib", OF int32_value_conform [OF assms]]
    by blast
  obtain a2 g2 where 2: "generate_array (float_value lib) 1000 g1 = Inr (a2, g2)"
      "length a2 = nat 1000" "list_all (\<lambda>v. 0 \<le> v \<and> v < 100) a2"
    using generate_array_all [where func = "float_value lib", OF float_value_conform [OF assms]]
    by blast
  obtain a3 g3 where 3: "generate_array (int64_value lib) 1000 g2 = Inr (a3, g3)"
      "length a3 = nat 1000" "list_all (\<lambda>v. \<exists>r. v = shift_int64 r) a3"
    using generate_array_all [where func = "int64_value lib", OF int64_value_shift]
    by blast
  obtain a4 g4 where 4: "generate_array (string_value lib) 1000 g3 = Inr (a4, g4)"
      "length a4 = nat 1000"
      "list_all (\<lambda>v. \<exists>n r. v = replicate n (letter r) \<and> 5 \<le> n \<and> n \<le> 10) a4"
    using generate_array_all [where func = "string_value lib", OF string_value_conform [OF assms]]
    by blast
  obtain a5 g5 where 5: "generate_array (binary_value lib) 1000 g4 = Inr (a5, g5)"
      "length a5 = nat 1000" "list_all (\<lambda>v. 3 \<le> length v \<and> length v \<le> 15) a5"
    using generate_array_all [where func = "binary_value lib", OF binary_value_conform [OF assms]]
    by blast
  have "base_data lib =
       Inr ([''int32'' \<mapsto> Int32Array a1, ''float'' \<mapsto> FloatArray a2,
             ''int64'' \<mapsto> Int64Array a3, ''string'' \<mapsto> StringArray a4,
             ''binary'' \<mapsto> BinaryArray a5], g5)"
    by (simp add: base_data_def 1(1) 2(1) 3(1) 4(1) 5(1))
  with 1 2 3 4 5 show thesis by (intro that) simp_all
qed

lemma base_data_columns:
  assumes "distributions_conform lib"
  obtains a1 a2 a3 a4 a5 g where
    "base_data lib =
       Inr ([''int32'' \<mapsto> Int32Array a1, ''float'' \<mapsto> FloatArray a2,
             ''int64'' \<mapsto> Int64Array a3, ''string'' \<mapsto> StringArray a4,
             ''binary'' \<mapsto> BinaryArray a5], g)"
    "length a1 = 1000" "list_all (\<lambda>v. 0 \<le> v \<and> v \<le> 10000) a1"
    "length a2 = 1000" "list_all (\<lambda>v. 0 \<le> v \<and> v < 100) a2"
    "length a3 = 1000" "list_all (\<lambda>v. \<exists>r. v = shift_int64 r) a3"
    "length a4 = 1000"
    "list_all (\<lambda>v. \<exists>n r. v = replicate n (letter r) \<and> 5 \<le> n \<and> n \<le> 10) a4"
    "length a5 = 1000" "list_all (\<lambda>v. 3 \<le> length v \<and> length v \<le> 15) a5"
proof -
  from assms obtain a1 g1 a2 g2 a3 g3 a4 g4 a5 g5 where
    "generate_array (int32_value lib) 1000 (rng_init lib 42) = Inr (a1, g1)"
    "generate_array (float_value lib) 1000 g1 = Inr (a2, g2)"
    "generate_array (int64_value lib) 1000 g2 = Inr (a3, g3)"
    "generate_array (string_value lib) 1000 g3 = Inr (a4, g4)"
    "generate_array (binary_value lib) 1000 g4 = Inr (a5, g5)"
    and r: "base_data lib =
       Inr ([''int32'' \<mapsto> Int32Array a1, ''float'' \<mapsto> FloatArray a2,
             ''int64'' \<mapsto> Int64Array a3, ''string'' \<mapsto> StringArray a4,
             ''binary'' \<mapsto> BinaryArray a5], g5)"
    "length a1 = 1000" "list_all (\<lambda>v. 0 \<le> v \<and> v \<le> 10000) a1"
    "length a2 = 1000" "list_all (\<lambda>v. 0 \<le> v \<and> v < 100) a2"
    "length a3 = 1000" "list_all (\<lambda>v. \<exists>r. v = shift_int64 r) a3"
    "length a4 = 1000"
    "list_all (\<lambda>v. \<exists>n r. v = replicate n (letter r) \<and> 5 \<le> n \<and> n \<le> 10) a4"
    "length a5 = 1000" "list_all (\<lambda>v. 3 \<le> length v \<and> length v \<le> 15) a5"
    by (rule base_data_conform)
  from r show thesis by (rule that)
qed

lemma letter_code: "of_char (letter r) = (of_char CHR ''a'' :: nat) + unat r mod 26"
proof -
  have "unat r mod 26 < 26" by simp
  then have "97 + unat r mod 26 < 256" by simp
  then show ?thesis by (simp add: letter_def)
qed

lemma byte_range: "0 \<le> uint (c :: 8 word) \<and> uint c \<le> 255"
  using uint_lt2p [of c] by simp

section \<open>Properties of the write loop\<close>

lemma create_directory_error:
  "create_directory lib p fs = Inl e \<Longrightarrow> e = Filesystem_error"
  by (auto simp: create_directory_def Let_def split: option.splits node.splits if_splits)

lemma create_directory_result:
  "create_directory lib p fs = Inr fs' \<Longrightarrow> fs' = fs(normalize p \<mapsto> Directory)"
  by (auto simp: create_directory_def Let_def split: option.splits node.splits if_splits)

lemma FileOutputStream_Open_error:
  "FileOutputStream_Open lib p fs = Inl e \<Longrightarrow> e = Open_failed"
  by (auto simp: FileOutputStream_Open_def Let_def split: if_splits)

lemma FileOutputStream_Open_result:
  "FileOutputStream_Open lib p fs = Inr (h, fs') \<Longrightarrow>
   h = normalize p \<and> fs' = fs(normalize p \<mapsto> Regular_file [])"
  by (auto simp: FileOutputStream_Open_def Let_def split: if_splits)

lemma create_directory_refused:
  "mkdir_refused lib fs p \<Longrightarrow> create_directory lib p fs = Inl Filesystem_error"
  by (simp add: create_directory_def)

lemma FileOutputStream_Open_refused:
  "open_refused lib fs p \<Longrightarrow> FileOutputStream_Open lib p fs = Inl Open_failed"
  by (simp add: FileOutputStream_Open_def)

text \<open>The four ways \<open>write_parquet\<close> can end.\<close>

lemma write_parquet_cases [case_names mkdir_failed open_failed write_failed written]:
  assumes mkdir_failed: "\<lbrakk>create_directory lib (directory_of spec) (files s) = Inl Filesystem_error;
      write_parquet lib spec arr s = (Some Filesystem_error, s)\<rbrakk> \<Longrightarrow> thesis"
    and open_failed: "\<And>fs1. \<lbrakk>create_directory lib (directory_of spec) (files s) = Inr fs1;
      FileOutputStream_Open lib (filename_of spec) fs1 = Inl Open_failed;
      write_parquet lib spec arr s = (Some Open_failed, s\<lparr>files := fs1\<rparr>)\<rbrakk> \<Longrightarrow> thesis"
    and write_failed: "\<And>fs1 fs2. \<lbrakk>create_directory lib (directory_of spec) (files s) = Inr fs1;
      FileOutputStream_Open lib (filename_of spec) fs1 = Inr (normalize (filename_of spec), fs2);
      write_parquet lib spec arr s =
         (Some Write_failed,
          s\<lparr>files := fs2(normalize (filename_of spec) \<mapsto>
                 Regular_file (written_bytes lib spec arr))\<rparr>)\<rbrakk>
      \<Longrightarrow> thesis"
    and written: "\<And>fs1 fs2. \<lbrakk>create_directory lib (directory_of spec) (files s) = Inr fs1;
      FileOutputStream_Open lib (filename_of spec) fs1 = Inr (normalize (filename_of spec), fs2);
      write_parquet lib spec arr s =
         (None, \<lparr>files = fs2(normalize (filename_of spec) \<mapsto>
                   Regular_file (written_bytes lib spec arr)),
                 stdout = stdout s @ wrote_line spec\<rparr>)\<rbrakk> \<Longrightarrow> thesis"
  shows thesis
proof (cases "create_directory lib (directory_of spec) (files s)")
  case (Inl e)
  then have "e = Filesystem_error" by (rule create_directory_error)
  with Inl show thesis by (intro mkdir_failed) (simp_all add: write_parquet_def Let_def)
next
  case (Inr fs1)
  show thesis
  proof (cases "FileOutputStream_Open lib (filename_of spec) fs1")
    case (Inl e)
    then have "e = Open_failed" by (rule FileOutputStream_Open_error)
    with Inl Inr show thesis by (intro open_failed [of fs1]) (simp_all add: write_parquet_def Let_def)
  next
    case opened: (Inr r)
    obtain h fs2 where r: "r = (h, fs2)" by (cases r)
    from opened r have h: "h = normalize (filename_of spec)"
      using FileOutputStream_Open_result by blast
    obtain ok bytes where w: "WriteTable lib
        \<lparr>field_name = ''data'', field_type = arrow_type spec, column = arr\<rparr> 1024
        (build_properties spec) = (ok, bytes)" by force
    then have b: "written_bytes lib spec arr = bytes" by (simp add: written_bytes_def)
    show thesis
    proof (cases ok)
      case True
      with Inr opened r h w b show thesis
        by (intro written [of fs1 fs2]) (simp_all add: write_parquet_def wrote_line_def Let_def)
    next
      case False
      with Inr opened r h w b show thesis
        by (intro write_failed [of fs1 fs2]) (simp_all add: write_parquet_def Let_def)
    qed
  qed
qed

lemma write_parquet_frame:
  assumes "write_parquet lib spec arr s = (r, s')"
    and "plain_names spec"
    and "p \<noteq> directory_of spec" and "p \<noteq> filename_of spec"
  shows "files s' p = files s p"
  using assms
  by (cases rule: write_parquet_cases [of lib spec s arr])
     (auto simp: plain_names_def dest!: create_directory_result FileOutputStream_Open_result)

lemma write_parquet_stdout_failed:
  assumes "write_parquet lib spec arr s = (Some e, s')"
  shows "stdout s' = stdout s"
  using assms by (cases rule: write_parquet_cases [of lib spec s arr]) auto

lemma write_parquet_not_out_of_range:
  "fst (write_parquet lib spec arr s) \<noteq> Some Out_of_range"
  by (cases rule: write_parquet_cases [of lib spec s arr]) auto

lemma write_parquet_success:
  assumes "write_parquet lib spec arr s = (None, s')"
  shows "stdout s' = stdout s @ wrote_line spec \<and>
         files s' (normalize (filename_of spec)) =
           Some (Regular_file (written_bytes lib spec arr))"
  using assms by (cases rule: write_parquet_cases [of lib spec s arr]) auto

lemma write_all_frame:
  assumes "write_all lib base xs s = (r, s')"
    and "\<forall>y\<in>set xs. plain_names y"
    and "\<forall>y\<in>set xs. p \<noteq> directory_of y \<and> p \<noteq> filename_of y"
  shows "files s' p = files s p"
  using assms
proof (induction xs arbitrary: s)
  case Nil
  then show ?case by simp
next
  case (Cons x xs)
  show ?case
  proof (cases "base (type_name x)")
    case None
    with Cons.prems show ?thesis by simp
  next
    case (Some arr)
    obtain r1 s1 where w: "write_parquet lib x arr s = (r1, s1)" by force
    from Cons.prems(2) have nx: "plain_names x" by simp
    from Cons.prems(3) have px: "p \<noteq> directory_of x" "p \<noteq> filename_of x" by simp_all
    from w nx px have f: "files s1 p = files s p" by (rule write_parquet_frame)
    show ?thesis
    proof (cases r1)
      case None
      with Cons.prems(1) Some w have "write_all lib base xs s1 = (r, s')" by simp
      moreover from Cons.prems(2) have "\<forall>y\<in>set xs. plain_names y" by simp
      moreover from Cons.prems(3)
      have "\<forall>y\<in>set xs. p \<noteq> directory_of y \<and> p \<noteq> filename_of y" by simp
      ultimately have "files s' p = files s1 p" by (rule Cons.IH)
      with f show ?thesis by simp
    next
      case (Some e)
      with Cons.prems(1) \<open>base (type_name x) = Some arr\<close> w have "s' = s1" by simp
      with f show ?thesis by simp
    qed
  qed
qed

lemma write_all_stdout:
  assumes "write_all lib base xs s = (None, s')"
  shows "stdout s' = stdout s @ concat (map wrote_line xs)"
  using assms
proof (induction xs arbitrary: s)
  case Nil
  then show ?case by simp
next
  case (Cons x xs)
  from Cons.prems obtain arr where a: "base (type_name x) = Some arr"
    by (cases "base (type_name x)") simp_all
  obtain r1 s1 where w: "write_parquet lib x arr s = (r1, s1)" by force
  from Cons.prems a w have r1: "r1 = None" by (cases r1) simp_all
  with Cons.prems a w have rest: "write_all lib base xs s1 = (None, s')" by simp
  from w r1 have "stdout s1 = stdout s @ wrote_line x"
    using write_parquet_success by blast
  moreover from rest have "stdout s' = stdout s1 @ concat (map wrote_line xs)"
    by (rule Cons.IH)
  ultimately show ?case by simp
qed

lemma write_all_files:
  assumes "write_all lib base xs s = (None, s')"
    and "\<forall>y\<in>set xs. plain_names y"
    and "distinct (map filename_of xs)"
    and "\<forall>a\<in>set xs. \<forall>b\<in>set xs. filename_of a \<noteq> directory_of b"
    and "x \<in> set xs"
  shows "\<exists>arr. base (type_name x) = Some arr \<and>
           files s' (filename_of x) = Some (Regular_file (written_bytes lib x arr))"
  using assms
proof (induction xs arbitrary: s)
  case Nil
  then show ?case by simp
next
  case (Cons y ys)
  from Cons.prems(1) obtain arr where a: "base (type_name y) = Some arr"
    by (cases "base (type_name y)") simp_all
  obtain r1 s1 where w: "write_parquet lib y arr s = (r1, s1)" by force
  from Cons.prems(1) a w have r1: "r1 = None" by (cases r1) simp_all
  with Cons.prems(1) a w have rest: "write_all lib base ys s1 = (None, s')" by simp
  from Cons.prems(2) have ny: "normalize (filename_of y) = filename_of y"
    and nys: "\<forall>z\<in>set ys. plain_names z"
    by (simp_all add: plain_names_def)
  show ?case
  proof (cases "x = y")
    case True
    from w r1 have "files s1 (normalize (filename_of y)) =
        Some (Regular_file (written_bytes lib y arr))"
      using write_parquet_success by blast
    then have "files s1 (filename_of y) = Some (Regular_file (written_bytes lib y arr))"
      by (simp only: ny)
    moreover have "\<forall>z\<in>set ys. filename_of y \<noteq> directory_of z \<and> filename_of y \<noteq> filename_of z"
      using Cons.prems(3,4) by auto
    with rest nys have "files s' (filename_of y) = files s1 (filename_of y)"
      by (rule write_all_frame)
    ultimately show ?thesis using a True by simp
  next
    case False
    with Cons.prems(5) have "x \<in> set ys" by simp
    moreover from Cons.prems(3) have "distinct (map filename_of ys)" by simp
    moreover from Cons.prems(4)
    have "\<forall>a\<in>set ys. \<forall>b\<in>set ys. filename_of a \<noteq> directory_of b" by simp
    ultimately show ?thesis using rest nys Cons.IH by blast
  qed
qed

lemma write_all_not_out_of_range:
  assumes "\<forall>x\<in>set xs. base (type_name x) \<noteq> None"
  shows "fst (write_all lib base xs s) \<noteq> Some Out_of_range"
  using assms
proof (induction xs arbitrary: s)
  case Nil
  then show ?case by simp
next
  case (Cons x xs)
  from Cons.prems obtain arr where a: "base (type_name x) = Some arr" by auto
  obtain r1 s1 where w: "write_parquet lib x arr s = (r1, s1)" by force
  show ?case
  proof (cases r1)
    case None
    with a w have "write_all lib base (x # xs) s = write_all lib base xs s1" by simp
    moreover from Cons.prems have "fst (write_all lib base xs s1) \<noteq> Some Out_of_range"
      by (intro Cons.IH) simp
    ultimately show ?thesis by simp
  next
    case (Some e)
    with a w have "write_all lib base (x # xs) s = (Some e, s1)" by simp
    moreover from w Some have "e \<noteq> Out_of_range"
      using write_parquet_not_out_of_range [of lib x arr s] by auto
    ultimately show ?thesis by simp
  qed
qed

lemma write_all_append_failure:
  assumes "write_all lib base pre s = (None, s1)"
    and "base (type_name x) = Some arr"
    and "write_parquet lib x arr s1 = (Some e, s2)"
  shows "write_all lib base (pre @ x # post) s = (Some e, s2)"
  using assms
proof (induction pre arbitrary: s)
  case Nil
  then show ?case by simp
next
  case (Cons y ys)
  from Cons.prems(1) obtain arr' where a: "base (type_name y) = Some arr'"
    by (cases "base (type_name y)") simp_all
  obtain r1 s' where w: "write_parquet lib y arr' s = (r1, s')" by force
  from Cons.prems(1) a w have r1: "r1 = None" by (cases r1) simp_all
  with Cons.prems(1) a w have "write_all lib base ys s' = (None, s1)" by simp
  then have "write_all lib base (ys @ x # post) s' = (Some e, s2)"
    using Cons.prems(2,3) by (rule Cons.IH)
  with a w r1 show ?case by simp
qed

section \<open>Path names of the table\<close>

lemma specs_plain_names: "\<forall>x\<in>set specs. plain_names x"
  by (simp add: specs_def mk_spec_def plain_names_def directory_of_def filename_of_def)

lemma specs_filenames_distinct: "distinct (map filename_of specs)"
  by (simp add: specs_def mk_spec_def filename_of_def)

lemma filename_not_directory:
  assumes "CHR ''/'' \<notin> set (encoding_name b)"
  shows "filename_of a \<noteq> directory_of b"
proof
  assume "filename_of a = directory_of b"
  then have "encoding_name b = encoding_name a @ ''/'' @ type_name a @ ''.parquet''"
    by (simp add: filename_of_def directory_of_def)
  then have "CHR ''/'' \<in> set (encoding_name b)" by simp
  with assms show False by simp
qed

lemma specs_encoding_names: "\<forall>b\<in>set specs. CHR ''/'' \<notin> set (encoding_name b)"
  by (simp add: specs_def mk_spec_def)

lemma specs_filename_not_directory:
  "\<forall>a\<in>set specs. \<forall>b\<in>set specs. filename_of a \<noteq> directory_of b"
  using specs_encoding_names filename_not_directory by blast

section \<open>The main program\<close>

lemma main_after_base_data:
  "base_data lib = Inr (base, g) \<Longrightarrow>
   main lib fs = write_all lib base specs \<lparr>files = fs, stdout = []\<rparr>"
  by (simp add: main_def)

lemma base_data_WriteTable: "base_data (lib\<lparr>WriteTable := w\<rparr>) = base_data lib"
proof -
  have fb: "fill_bytes (lib\<lparr>WriteTable := w\<rparr>) n g = fill_bytes lib n g" for n g
    by (induction n arbitrary: g) simp_all
  have eqs: "int32_value (lib\<lparr>WriteTable := w\<rparr>) = int32_value lib"
    "float_value (lib\<lparr>WriteTable := w\<rparr>) = float_value lib"
    "int64_value (lib\<lparr>WriteTable := w\<rparr>) = int64_value lib"
    "string_value (lib\<lparr>WriteTable := w\<rparr>) = string_value lib"
    "binary_value (lib\<lparr>WriteTable := w\<rparr>) = binary_value lib"
    "rng_init (lib\<lparr>WriteTable := w\<rparr>) = rng_init lib"
    by (simp_all add: fun_eq_iff int32_value_def float_value_def int64_value_def
        string_value_def binary_value_def fb split: prod.splits)
  show ?thesis unfolding base_data_def eqs by (rule refl)
qed

lemma specs_lookup:
  "\<forall>spec\<in>set specs. \<exists>arr.
      [''int32'' \<mapsto> Int32Array a1, ''float'' \<mapsto> FloatArray a2,
       ''int64'' \<mapsto> Int64Array a3, ''string'' \<mapsto> StringArray a4,
       ''binary'' \<mapsto> BinaryArray a5] (type_name spec) = Some arr \<and>
      array_type arr = arrow_type spec"
  by (simp add: specs_def mk_spec_def)

lemma write_parquet_failure_files:
  assumes "write_parquet lib spec arr s = (Some e, s')"
  shows "(e = Open_failed \<longrightarrow>
            create_directory lib (directory_of spec) (files s) = Inr (files s')) \<and>
         (e = Write_failed \<longrightarrow>
            files s' (normalize (filename_of spec)) =
              Some (Regular_file (written_bytes lib spec arr)))"
  using assms by (cases rule: write_parquet_cases [of lib spec s arr]) auto

lemma distributions_conform_WriteTable:
  "distributions_conform (lib\<lparr>WriteTable := w\<rparr>) = distributions_conform lib"
  by (simp add: distributions_conform_def)

section \<open>Runs that return\<close>

lemma parent_path_append:
  assumes "CHR ''/'' \<notin> set n"
  shows "parent_path (d @ ''/'' @ n) = d"
proof -
  have "dropWhile (\<lambda>c. c \<noteq> CHR ''/'') (rev n @ CHR ''/'' # rev d) =
        dropWhile (\<lambda>c. c \<noteq> CHR ''/'') (CHR ''/'' # rev d)"
    using assms by (intro dropWhile_append2) auto
  then show ?thesis by (simp add: parent_path_def)
qed

lemma parent_path_directory_of:
  assumes "CHR ''/'' \<notin> set (encoding_name x)"
  shows "parent_path (directory_of x) = ''data''"
  using parent_path_append [OF assms, of "''data''"] by (simp add: directory_of_def)

lemma parent_path_filename_of:
  assumes "CHR ''/'' \<notin> set (type_name x)"
  shows "parent_path (filename_of x) = directory_of x"
proof -
  from assms have "CHR ''/'' \<notin> set (type_name x @ ''.parquet'')" by simp
  from parent_path_append [OF this, of "directory_of x"]
  show ?thesis by (simp add: directory_of_def filename_of_def)
qed

lemma data_not_directory_of: "''data'' \<noteq> directory_of x"
  by (simp add: directory_of_def)

lemma data_not_filename_of: "''data'' \<noteq> filename_of x"
  by (simp add: filename_of_def)

lemma directory_not_filename: "directory_of x \<noteq> filename_of x"
proof
  assume "directory_of x = filename_of x"
  then have "length (directory_of x) = length (filename_of x)" by simp
  then show False by (simp add: directory_of_def filename_of_def)
qed

lemma last_filename_of: "filename_of x \<noteq> [] \<and> last (filename_of x) \<noteq> CHR ''/''"
  by (simp add: filename_of_def)

lemma write_parquet_succeeds:
  assumes "fst (WriteTable lib \<lparr>field_name = ''data'', field_type = arrow_type x, column = arr\<rparr>
                  1024 (build_properties x))"
    and "fs ''data'' = Some Directory"
    and "CHR ''/'' \<notin> set (encoding_name x)" and "CHR ''/'' \<notin> set (type_name x)"
    and "ready fs x"
    and "plain_names x"
    and "\<forall>fs p. \<not> mkdir_refused lib fs p" and "\<forall>fs p. \<not> open_refused lib fs p"
  shows "write_parquet lib x arr \<lparr>files = fs, stdout = out\<rparr> =
     (None, \<lparr>files = fs(directory_of x \<mapsto> Directory,
                         filename_of x \<mapsto> Regular_file (written_bytes lib x arr)),
             stdout = out @ wrote_line x\<rparr>)"
proof -
  from assms(6) have nd: "normalize (directory_of x) = directory_of x"
    and nf: "normalize (filename_of x) = filename_of x"
    by (simp_all add: plain_names_def)
  have d0: "directory_of x \<noteq> []" by (simp add: directory_of_def)
  have c: "create_directory lib (directory_of x) fs = Inr (fs(directory_of x \<mapsto> Directory))"
    using assms(2,5,7) parent_path_directory_of [OF assms(3)] d0
    by (auto simp: create_directory_def Let_def nd ready_def is_directory_def fun_upd_idem)
  have o: "FileOutputStream_Open lib (filename_of x) (fs(directory_of x \<mapsto> Directory)) =
      Inr (filename_of x, fs(directory_of x \<mapsto> Directory, filename_of x \<mapsto> Regular_file []))"
    using assms(5,8) parent_path_filename_of [OF assms(4)] directory_not_filename [of x]
      last_filename_of [of x]
    by (auto simp: FileOutputStream_Open_def Let_def nf ready_def is_directory_def)
  obtain bytes where w: "WriteTable lib
      \<lparr>field_name = ''data'', field_type = arrow_type x, column = arr\<rparr> 1024
      (build_properties x) = (True, bytes)"
    using assms(1) by (cases "WriteTable lib
      \<lparr>field_name = ''data'', field_type = arrow_type x, column = arr\<rparr> 1024
      (build_properties x)") auto
  then have b: "written_bytes lib x arr = bytes" by (simp add: written_bytes_def)
  show ?thesis
    by (simp add: write_parquet_def c o w b Let_def wrote_line_def)
qed

lemma write_all_succeeds:
  assumes "\<forall>x\<in>set xs. base (type_name x) \<noteq> None"
    and "\<forall>t n p. fst (WriteTable lib t n p)"
    and "fs ''data'' = Some Directory"
    and "\<forall>x\<in>set xs. CHR ''/'' \<notin> set (encoding_name x) \<and> CHR ''/'' \<notin> set (type_name x)"
    and "\<forall>x\<in>set xs. ready fs x"
    and "\<forall>x\<in>set xs. plain_names x"
    and "\<forall>fs p. \<not> mkdir_refused lib fs p" and "\<forall>fs p. \<not> open_refused lib fs p"
  shows "fst (write_all lib base xs \<lparr>files = fs, stdout = out\<rparr>) = None"
  using assms(1,3,4,5,6)
proof (induction xs arbitrary: fs out)
  case Nil
  show ?case by simp
next
  case (Cons x xs)
  from Cons.prems(1) obtain arr where a: "base (type_name x) = Some arr" by auto
  let ?fs = "fs(directory_of x \<mapsto> Directory,
                filename_of x \<mapsto> Regular_file (written_bytes lib x arr))"
  from Cons.prems(3) have sx: "CHR ''/'' \<notin> set (encoding_name x)" "CHR ''/'' \<notin> set (type_name x)"
    by simp_all
  from Cons.prems(4) have rx: "ready fs x" by simp
  from Cons.prems(5) have nx: "plain_names x" by simp
  have wt: "fst (WriteTable lib \<lparr>field_name = ''data'', field_type = arrow_type x, column = arr\<rparr>
                  1024 (build_properties x))"
    using assms(2) by simp
  have w: "write_parquet lib x arr \<lparr>files = fs, stdout = out\<rparr> =
     (None, \<lparr>files = ?fs, stdout = out @ wrote_line x\<rparr>)"
    using wt Cons.prems(2) sx rx nx assms(7,8) by (rule write_parquet_succeeds)
  have d: "?fs ''data'' = Some Directory"
    using Cons.prems(2) data_not_directory_of [of x] data_not_filename_of [of x] by simp
  have r: "\<forall>y\<in>set xs. ready ?fs y"
  proof
    fix y assume y: "y \<in> set xs"
    with Cons.prems(4) have ry: "ready fs y" by simp
    from y Cons.prems(3) have sy: "CHR ''/'' \<notin> set (encoding_name y)" by simp
    have 1: "filename_of x \<noteq> directory_of y" using sy by (rule filename_not_directory)
    have 2: "filename_of y \<noteq> directory_of x" using sx(1) by (rule filename_not_directory)
    from ry 1 2 show "ready ?fs y" by (auto simp: ready_def)
  qed
  from Cons.prems(1) have p1: "\<forall>y\<in>set xs. base (type_name y) \<noteq> None" by simp
  from Cons.prems(3)
  have p3: "\<forall>y\<in>set xs. CHR ''/'' \<notin> set (encoding_name y) \<and> CHR ''/'' \<notin> set (type_name y)"
    by simp
  from Cons.prems(5) have p5: "\<forall>y\<in>set xs. plain_names y" by simp
  from p1 d p3 r p5
  have "fst (write_all lib base xs \<lparr>files = ?fs, stdout = out @ wrote_line x\<rparr>) = None"
    by (rule Cons.IH)
  with a w show ?case by simp
qed

lemma specs_type_names: "\<forall>x\<in>set specs. CHR ''/'' \<notin> set (type_name x)"
  by (simp add: specs_def mk_spec_def)

lemma main_succeeds:
  assumes "distributions_conform lib"
    and "\<forall>t n p. fst (WriteTable lib t n p)"
    and "fs ''data'' = Some Directory"
    and "\<forall>x\<in>set specs. ready fs x"
    and "\<forall>fs p. \<not> mkdir_refused lib fs p" and "\<forall>fs p. \<not> open_refused lib fs p"
  shows "fst (main lib fs) = None"
proof -
  from assms(1) obtain a1 a2 a3 a4 a5 g where
    b: "base_data lib =
       Inr ([''int32'' \<mapsto> Int32Array a1, ''float'' \<mapsto> FloatArray a2,
             ''int64'' \<mapsto> Int64Array a3, ''string'' \<mapsto> StringArray a4,
             ''binary'' \<mapsto> BinaryArray a5], g)"
    and "length a1 = 1000" "list_all (\<lambda>v. 0 \<le> v \<and> v \<le> 10000) a1"
    and "length a2 = 1000" "list_all (\<lambda>v. 0 \<le> v \<and> v < 100) a2"
    and "length a3 = 1000" "list_all (\<lambda>v. \<exists>r. v = shift_int64 r) a3"
    and "length a4 = 1000"
      "list_all (\<lambda>v. \<exists>n r. v = replicate n (letter r) \<and> 5 \<le> n \<and> n \<le> 10) a4"
    and "length a5 = 1000" "list_all (\<lambda>v. 3 \<le> length v \<and> length v \<le> 15) a5"
    by (rule base_data_columns)
  let ?base = "[''int32'' \<mapsto> Int32Array a1, ''float'' \<mapsto> FloatArray a2,
             ''int64'' \<mapsto> Int64Array a3, ''string'' \<mapsto> StringArray a4,
             ''binary'' \<mapsto> BinaryArray a5]"
  have k: "\<forall>x\<in>set specs. ?base (type_name x) \<noteq> None"
    by (simp add: specs_def mk_spec_def)
  have s: "\<forall>x\<in>set specs. CHR ''/'' \<notin> set (encoding_name x) \<and> CHR ''/'' \<notin> set (type_name x)"
    using specs_encoding_names specs_type_names by blast
  have "fst (write_all lib ?base specs \<lparr>files = fs, stdout = []\<rparr>) = None"
    using k assms(2,3) s assms(4) specs_plain_names assms(5,6) by (rule write_all_succeeds)
  then show ?thesis by (simp add: main_after_base_data [OF b])
qed

lemma lcg_library_writes: "\<forall>t n p. fst (WriteTable lcg_library t n p)"
  by (simp add: lcg_library_def)

lemma lcg_library_permits:
  "\<forall>fs p. \<not> mkdir_refused lcg_library fs p" "\<forall>fs p. \<not> open_refused lcg_library fs p"
  by (simp_all add: lcg_library_def)

section \<open>The columns as sequences of draws\<close>

lemma state_after_0: "state_after d g 0 = g"
  by (simp add: state_after_def)

lemma state_after_Suc: "state_after d g (Suc i) = state_after d (snd (d g)) i"
  unfolding state_after_def by (simp only: funpow_Suc_right comp_apply)

lemma drawn_0: "drawn d g 0 = []"
  by (simp add: drawn_def)

lemma drawn_Suc: "drawn d g (Suc n) = fst (d g) # drawn d (snd (d g)) n"
proof -
  have "[0..<Suc n] = 0 # map Suc [0..<n]"
    by (simp add: upt_conv_Cons map_Suc_upt del: upt_Suc)
  then show ?thesis
    by (simp add: drawn_def state_after_0 state_after_Suc comp_def del: upt_Suc)
qed

lemma length_drawn: "length (drawn d g n) = n"
  by (simp add: drawn_def)

lemma drawn_nth: "i < n \<Longrightarrow> drawn d g n ! i = fst (d (state_after d g i))"
  by (simp add: drawn_def)

text \<open>A lambda that always returns what \<open>d\<close> draws gives the column of the draws of \<open>d\<close>.\<close>

lemma generate_loop_drawn:
  assumes "\<And>g. func g = Inr (d g)"
  shows "generate_loop func n g = Inr (drawn d g n, state_after d g n)"
proof (induction n arbitrary: g)
  case 0
  show ?case by (simp add: drawn_0 state_after_0)
next
  case (Suc n)
  obtain v g' where d: "d g = (v, g')" by force
  with assms have f: "func g = Inr (v, g')" by simp
  from Suc.IH [of g'] d f show ?case
    by (simp add: drawn_Suc state_after_Suc)
qed

lemma generate_array_drawn:
  assumes "\<And>g. func g = Inr (d g)"
  shows "generate_array func num_rows g =
     Inr (drawn d g (nat num_rows), state_after d g (nat num_rows))"
  unfolding generate_array_def using assms by (rule generate_loop_drawn)

lemma state_after_mapped:
  "state_after (\<lambda>g. (h (fst (d g)), snd (d g))) g n = state_after d g n"
  by (simp add: state_after_def)

lemma drawn_mapped:
  "drawn (\<lambda>g. (h (fst (d g)), snd (d g))) g n = map h (drawn d g n)"
  by (simp add: drawn_def state_after_mapped comp_def)

lemma int64_value_draw:
  "int64_value lib g = Inr (shift_int64 (fst (rng_call lib g)), snd (rng_call lib g))"
  by (simp add: int64_value_def split: prod.splits)

lemma fill_bytes_drawn:
  "fill_bytes lib n g =
     (map (\<lambda>r. ucast (r mod 256)) (drawn (rng_call lib) g n), state_after (rng_call lib) g n)"
proof (induction n arbitrary: g)
  case 0
  show ?case by (simp add: drawn_0 state_after_0)
next
  case (Suc n)
  obtain r g' where c: "rng_call lib g = (r, g')" by force
  from Suc.IH [of g'] c show ?case
    by (simp add: drawn_Suc state_after_Suc)
qed

lemma string_value_draw:
  assumes "distributions_conform lib"
  shows "string_value lib g = Inr (string_draw lib g)"
proof -
  obtain len g1 where u: "uniform_int_distribution lib 5 10 g = (len, g1)" by force
  obtain r g2 where c: "rng_call lib g1 = (r, g2)" by force
  from assms have "5 \<le> fst (uniform_int_distribution lib 5 10 g)"
    unfolding distributions_conform_def by simp
  with u have "\<not> len < 0" by simp
  with u c show ?thesis
    by (simp add: string_value_def string_draw_def Let_def)
qed

lemma binary_value_draw:
  assumes "distributions_conform lib"
  shows "binary_value lib g = Inr (binary_draw lib g)"
proof -
  obtain len g1 where u: "uniform_int_distribution lib 3 15 g = (len, g1)" by force
  from assms have "3 \<le> fst (uniform_int_distribution lib 3 15 g)"
    unfolding distributions_conform_def by simp
  with u have "\<not> len < 0" by simp
  with u show ?thesis
    by (simp add: binary_value_def binary_draw_def fill_bytes_drawn Let_def)
qed

lemma base_data_drawn:
  assumes "distributions_conform lib"
  shows "base_data lib =
    (let g0 = rng_init lib 42;
         g1 = state_after (uniform_int_distribution lib 0 10000) g0 1000;
         g2 = state_after (uniform_real_distribution lib 0 100) g1 1000;
         g3 = state_after (rng_call lib) g2 1000;
         g4 = state_after (string_draw lib) g3 1000;
         g5 = state_after (binary_draw lib) g4 1000
     in Inr ([''int32'' \<mapsto> Int32Array (drawn (uniform_int_distribution lib 0 10000) g0 1000),
              ''float'' \<mapsto> FloatArray (drawn (uniform_real_distribution lib 0 100) g1 1000),
              ''int64'' \<mapsto> Int64Array (map shift_int64 (drawn (rng_call lib) g2 1000)),
              ''string'' \<mapsto> StringArray (drawn (string_draw lib) g3 1000),
              ''binary'' \<mapsto> BinaryArray (drawn (binary_draw lib) g4 1000)], g5))"
proof -
  have 1: "generate_array (int32_value lib) 1000 g =
      Inr (drawn (uniform_int_distribution lib 0 10000) g 1000,
           state_after (uniform_int_distribution lib 0 10000) g 1000)" for g
    using generate_array_drawn [of "int32_value lib" "uniform_int_distribution lib 0 10000" 1000 g]
    by (simp add: int32_value_def)
  have 2: "generate_array (float_value lib) 1000 g =
      Inr (drawn (uniform_real_distribution lib 0 100) g 1000,
           state_after (uniform_real_distribution lib 0 100) g 1000)" for g
    using generate_array_drawn [of "float_value lib" "uniform_real_distribution lib 0 100" 1000 g]
    by (simp add: float_value_def)
  have 3: "generate_array (int64_value lib) 1000 g =
      Inr (map shift_int64 (drawn (rng_call lib) g 1000), state_after (rng_call lib) g 1000)" for g
    using generate_array_drawn [of "int64_value lib"
        "\<lambda>g. (shift_int64 (fst (rng_call lib g)), snd (rng_call lib g))" 1000 g]
    by (simp add: int64_value_draw drawn_mapped state_after_mapped)
  have 4: "generate_array (string_value lib) 1000 g =
      Inr (drawn (string_draw lib) g 1000, state_after (string_draw lib) g 1000)" for g
    using generate_array_drawn [of "string_value lib" "string_draw lib" 1000 g]
    by (simp add: string_value_draw [OF assms])
  have 5: "generate_array (binary_value lib) 1000 g =
      Inr (drawn (binary_draw lib) g 1000, state_after (binary_draw lib) g 1000)" for g
    using generate_array_drawn [of "binary_value lib" "binary_draw lib" 1000 g]
    by (simp add: binary_value_draw [OF assms])
  show ?thesis
    by (simp add: base_data_def 1 2 3 4 5 Let_def)
qed


section \<open>The claims\<close>

text \<open>
  C1. The writer properties are chosen by a three-way branch on the encoding: the two
  dictionary encodings enable the dictionary and set no column encoding; the encodings
  DELTA_BINARY_PACKED and DELTA_LENGTH_BYTE_ARRAY disable the dictionary and then request
  that encoding for column "data"; every other encoding is requested for column "data"
  with no call on the dictionary setting. In the specification table the other encodings
  are PLAIN and RLE.
\<close>

theorem build_properties_three_way:
  "(encoding spec = PLAIN_DICTIONARY \<or> encoding spec = RLE_DICTIONARY \<longrightarrow>
      build_properties spec = [Enable_dictionary]) \<and>
   (encoding spec = DELTA_BINARY_PACKED \<or> encoding spec = DELTA_LENGTH_BYTE_ARRAY \<longrightarrow>
      build_properties spec = [Disable_dictionary, Set_encoding ''data'' (encoding spec)]) \<and>
   (encoding spec \<noteq> PLAIN_DICTIONARY \<and> encoding spec \<noteq> RLE_DICTIONARY \<and>
    encoding spec \<noteq> DELTA_BINARY_PACKED \<and> encoding spec \<noteq> DELTA_LENGTH_BYTE_ARRAY \<longrightarrow>
      build_properties spec = [Set_encoding ''data'' (encoding spec)]) \<and>
   remdups (map encoding (filter (\<lambda>s. encoding s \<noteq> PLAIN_DICTIONARY \<and>
      encoding s \<noteq> RLE_DICTIONARY \<and> encoding s \<noteq> DELTA_BINARY_PACKED \<and>
      encoding s \<noteq> DELTA_LENGTH_BYTE_ARRAY) specs)) = [PLAIN, RLE]"
proof (intro conjI impI)
  show "remdups (map encoding (filter (\<lambda>s. encoding s \<noteq> PLAIN_DICTIONARY \<and>
      encoding s \<noteq> RLE_DICTIONARY \<and> encoding s \<noteq> DELTA_BINARY_PACKED \<and>
      encoding s \<noteq> DELTA_LENGTH_BYTE_ARRAY) specs)) = [PLAIN, RLE]"
    by (simp add: specs_def mk_spec_def)
qed (auto simp: build_properties_def)

theorem build_properties_three_way_witness:
  "build_properties (specs ! 4) = [Enable_dictionary] \<and>
   build_properties (specs ! 19) = [Disable_dictionary, Set_encoding ''data'' DELTA_BINARY_PACKED] \<and>
   build_properties (specs ! 0) = [Set_encoding ''data'' PLAIN]"
proof -
  have e4: "encoding (specs ! 4) = PLAIN_DICTIONARY"
    and e19: "encoding (specs ! 19) = DELTA_BINARY_PACKED"
    and e0: "encoding (specs ! 0) = PLAIN"
    by (simp_all add: specs_def mk_spec_def)
  note t4 = build_properties_three_way [of "specs ! 4"]
  note t19 = build_properties_three_way [of "specs ! 19"]
  note t0 = build_properties_three_way [of "specs ! 0"]
  from t4 e4 have "build_properties (specs ! 4) = [Enable_dictionary]" by blast
  moreover from t19 e19
  have "build_properties (specs ! 19) = [Disable_dictionary, Set_encoding ''data'' DELTA_BINARY_PACKED]"
    by simp
  moreover from t0 e0 have "build_properties (specs ! 0) = [Set_encoding ''data'' PLAIN]"
    by simp
  ultimately show ?thesis by blast
qed

text \<open>
  C2. The specification table has 22 entries, grouped in this order: PLAIN,
  PLAIN_DICTIONARY, RLE_DICTIONARY, RLE, DELTA_BINARY_PACKED, DELTA_LENGTH_BYTE_ARRAY, each
  named as its encoding. PLAIN comes with string, float, int32 and binary (no int64); the
  two dictionary encodings and RLE with string, float, int32, int64 and binary;
  DELTA_BINARY_PACKED with int32 and int64 only; DELTA_LENGTH_BYTE_ARRAY with binary only.
\<close>

theorem specs_table:
  "length specs = 22 \<and>
   remdups_adj (map (\<lambda>s. (encoding_name s, encoding s)) specs) =
     [(''PLAIN'', PLAIN), (''PLAIN_DICTIONARY'', PLAIN_DICTIONARY),
      (''RLE_DICTIONARY'', RLE_DICTIONARY), (''RLE'', RLE),
      (''DELTA_BINARY_PACKED'', DELTA_BINARY_PACKED),
      (''DELTA_LENGTH_BYTE_ARRAY'', DELTA_LENGTH_BYTE_ARRAY)] \<and>
   map (\<lambda>s. (type_name s, arrow_type s)) (filter (\<lambda>s. encoding s = PLAIN) specs) =
     [(''string'', Utf8), (''float'', Float32), (''int32'', Int32), (''binary'', Binary)] \<and>
   map (\<lambda>s. (type_name s, arrow_type s)) (filter (\<lambda>s. encoding s = PLAIN_DICTIONARY) specs) =
     [(''string'', Utf8), (''float'', Float32), (''int32'', Int32), (''int64'', Int64),
      (''binary'', Binary)] \<and>
   map (\<lambda>s. (type_name s, arrow_type s)) (filter (\<lambda>s. encoding s = RLE_DICTIONARY) specs) =
     [(''string'', Utf8), (''float'', Float32), (''int32'', Int32), (''int64'', Int64),
      (''binary'', Binary)] \<and>
   map (\<lambda>s. (type_name s, arrow_type s)) (filter (\<lambda>s. encoding s = RLE) specs) =
     [(''string'', Utf8), (''float'', Float32), (''int32'', Int32), (''int64'', Int64),
      (''binary'', Binary)] \<and>
   map (\<lambda>s. (type_name s, arrow_type s)) (filter (\<lambda>s. encoding s = DELTA_BINARY_PACKED) specs) =
     [(''int32'', Int32), (''int64'', Int64)] \<and>
   map (\<lambda>s. (type_name s, arrow_type s)) (filter (\<lambda>s. encoding s = DELTA_LENGTH_BYTE_ARRAY) specs) =
     [(''binary'', Binary)]"
  by (simp add: specs_def mk_spec_def)

text \<open>
  C3. As stated the claim fails: the create makes one directory and not its parent, so in
  a working directory without \<open>data\<close> it throws for the first specification, whose
  directory does not exist yet, although nothing is in its place and the operating
  system refuses nothing; the run ends there.

  What holds is the claim with one more condition, that \<open>data\<close> is a directory already.
  For every specification of the table and every file system in which \<open>data\<close> is a
  directory and the run can otherwise proceed (nothing but a directory is at
  \<open>data/<encoding-name>\<close>, and the operating system does not refuse to create it), the
  create succeeds, both when the directory exists already (the file system is unchanged)
  and when it does not (the directory is added), and repeating it changes nothing. It
  comes before the open: \<open>write_parquet\<close> does not end with the file system exception,
  and whatever the open and the write do, the directory is there afterwards.
\<close>

theorem create_directory_idempotent:
  assumes "spec \<in> set specs"
    and "fs ''data'' = Some Directory"
    and "fs (directory_of spec) = None \<or> fs (directory_of spec) = Some Directory"
    and "\<forall>fs'. \<not> mkdir_refused lib fs' (directory_of spec)"
  shows "create_directory lib (directory_of spec) fs =
       Inr (fs(directory_of spec \<mapsto> Directory)) \<and>
     (fs (directory_of spec) = Some Directory \<longrightarrow> fs(directory_of spec \<mapsto> Directory) = fs) \<and>
     create_directory lib (directory_of spec) (fs(directory_of spec \<mapsto> Directory)) =
       Inr (fs(directory_of spec \<mapsto> Directory)) \<and>
     fst (write_parquet lib spec arr \<lparr>files = fs, stdout = out\<rparr>) \<noteq> Some Filesystem_error \<and>
     files (snd (write_parquet lib spec arr \<lparr>files = fs, stdout = out\<rparr>)) (directory_of spec) =
       Some Directory"
proof -
  let ?d = "directory_of spec" and ?f = "filename_of spec"
  let ?fs1 = "fs(?d \<mapsto> Directory)"
  let ?s = "\<lparr>files = fs, stdout = out\<rparr>"
  from assms(1) specs_encoding_names have n: "CHR ''/'' \<notin> set (encoding_name spec)"
    by blast
  from assms(1) specs_plain_names have "plain_names spec" by blast
  then have nd: "normalize ?d = ?d" and nf: "normalize ?f = ?f"
    by (simp_all add: plain_names_def)
  have d0: "?d \<noteq> []" by (simp add: directory_of_def)
  have pd: "parent_path ?d = ''data''" using n by (rule parent_path_directory_of)
  have df: "?d \<noteq> ?f" by (rule directory_not_filename)
  have c: "create_directory lib ?d fs = Inr ?fs1"
    using assms(2,3,4) pd d0
    by (auto simp: create_directory_def Let_def nd is_directory_def fun_upd_idem)
  have same: "fs ?d = Some Directory \<longrightarrow> ?fs1 = fs"
    by (simp add: fun_upd_idem)
  have again: "create_directory lib ?d ?fs1 = Inr ?fs1"
    using assms(4) d0 by (simp add: create_directory_def Let_def nd)
  have e: "fst (write_parquet lib spec arr ?s) \<noteq> Some Filesystem_error"
    using c by (cases rule: write_parquet_cases [of lib spec ?s arr]) simp_all
  have k: "files (snd (write_parquet lib spec arr ?s)) ?d = Some Directory"
    using c df
    by (cases rule: write_parquet_cases [of lib spec ?s arr])
       (auto simp: nf dest!: FileOutputStream_Open_result)
  from c same again e k show ?thesis by (intro conjI)
qed

theorem create_directory_idempotent_witness:
  "create_directory lcg_library ''data/PLAIN'' [''data'' \<mapsto> Directory] =
     Inr [''data'' \<mapsto> Directory, ''data/PLAIN'' \<mapsto> Directory] \<and>
   create_directory lcg_library ''data/PLAIN''
       [''data'' \<mapsto> Directory, ''data/PLAIN'' \<mapsto> Directory] =
     Inr [''data'' \<mapsto> Directory, ''data/PLAIN'' \<mapsto> Directory]"
proof -
  have s: "specs ! 0 \<in> set specs" by (simp add: specs_def)
  have d: "directory_of (specs ! 0) = ''data/PLAIN''"
    by (simp add: specs_def mk_spec_def directory_of_def)
  let ?fs = "[''data'' \<mapsto> Directory]"
  have h2: "?fs ''data'' = Some Directory" by simp
  have h3: "?fs (directory_of (specs ! 0)) = None \<or> ?fs (directory_of (specs ! 0)) = Some Directory"
    by (simp add: d)
  have h4: "\<forall>fs'. \<not> mkdir_refused lcg_library fs' (directory_of (specs ! 0))"
    by (simp add: lcg_library_def)
  note t = create_directory_idempotent [OF s h2 h3 h4]
  from t have 1: "create_directory lcg_library (directory_of (specs ! 0)) ?fs =
      Inr (?fs(directory_of (specs ! 0) \<mapsto> Directory))"
    by (rule conjunct1)
  from t have 2: "create_directory lcg_library (directory_of (specs ! 0))
      (?fs(directory_of (specs ! 0) \<mapsto> Directory)) = Inr (?fs(directory_of (specs ! 0) \<mapsto> Directory))"
    by (rule conjunct1 [OF conjunct2 [OF conjunct2]])
  from 1 2 show ?thesis by (simp only: d)
qed

text \<open>
  The empty file system, under an operating system that refuses nothing: the directory of
  the first specification is absent, its creation throws, and the program ends with
  nothing written and nothing printed.
\<close>

theorem create_directory_without_parent:
  "Map.empty (directory_of (specs ! 0)) = (None :: node option) \<and>
   \<not> mkdir_refused lcg_library Map.empty (directory_of (specs ! 0)) \<and>
   create_directory lcg_library (directory_of (specs ! 0)) Map.empty = Inl Filesystem_error \<and>
   main lcg_library Map.empty = (Some Filesystem_error, \<lparr>files = Map.empty, stdout = []\<rparr>)"
proof -
  define x where "x = mk_spec ''PLAIN'' PLAIN ''string'' Utf8"
  define post where "post = tl specs"
  let ?s = "\<lparr>files = Map.empty, stdout = []\<rparr>"
  have x: "specs ! 0 = x" by (simp add: specs_def x_def)
  have sp: "specs = [] @ x # post" by (simp add: specs_def x_def post_def)
  have p: "\<not> mkdir_refused lcg_library Map.empty (directory_of x)"
    by (simp add: lcg_library_def)
  have c: "create_directory lcg_library (directory_of x) Map.empty = Inl Filesystem_error"
    by (simp add: x_def mk_spec_def directory_of_def create_directory_def is_directory_def
        parent_path_def lcg_library_def)
  from lcg_library_conform obtain a1 a2 a3 a4 a5 g where
    b: "base_data lcg_library =
       Inr ([''int32'' \<mapsto> Int32Array a1, ''float'' \<mapsto> FloatArray a2,
             ''int64'' \<mapsto> Int64Array a3, ''string'' \<mapsto> StringArray a4,
             ''binary'' \<mapsto> BinaryArray a5], g)"
    and "length a1 = 1000" "list_all (\<lambda>v. 0 \<le> v \<and> v \<le> 10000) a1"
    and "length a2 = 1000" "list_all (\<lambda>v. 0 \<le> v \<and> v < 100) a2"
    and "length a3 = 1000" "list_all (\<lambda>v. \<exists>r. v = shift_int64 r) a3"
    and "length a4 = 1000"
      "list_all (\<lambda>v. \<exists>n r. v = replicate n (letter r) \<and> 5 \<le> n \<and> n \<le> 10) a4"
    and "length a5 = 1000" "list_all (\<lambda>v. 3 \<le> length v \<and> length v \<le> 15) a5"
    by (rule base_data_columns)
  let ?base = "[''int32'' \<mapsto> Int32Array a1, ''float'' \<mapsto> FloatArray a2,
             ''int64'' \<mapsto> Int64Array a3, ''string'' \<mapsto> StringArray a4,
             ''binary'' \<mapsto> BinaryArray a5]"
  have arr: "?base (type_name x) = Some (StringArray a4)"
    by (simp add: x_def mk_spec_def)
  have w: "write_parquet lcg_library x (StringArray a4) ?s = (Some Filesystem_error, ?s)"
    by (simp add: write_parquet_def c)
  have "write_all lcg_library ?base [] ?s = (None, ?s)" by simp
  then have f: "write_all lcg_library ?base ([] @ x # post) ?s = (Some Filesystem_error, ?s)"
    using arr w by (rule write_all_append_failure)
  have "main lcg_library Map.empty = write_all lcg_library ?base specs ?s"
    using b by (rule main_after_base_data)
  also have "\<dots> = write_all lcg_library ?base ([] @ x # post) ?s"
    by (rule arg_cong [where f = "\<lambda>l. write_all lcg_library ?base l ?s", OF sp])
  also note f
  finally have "main lcg_library Map.empty = (Some Filesystem_error, ?s)" .
  with c p x show ?thesis by simp
qed

text \<open>
  C4. With conforming distributions the program generates all five columns, and in them:
  each of the 1000 values of the int32 column lies in \<open>[0, 10000]\<close>; each of the 1000
  values of the float column lies in \<open>[0, 100)\<close>; each of the 1000 values of the binary
  column has between 3 and 15 bytes, each byte in \<open>[0, 255]\<close>.
\<close>

theorem generated_value_ranges:
  assumes "distributions_conform lib"
  shows "\<exists>base g ints floats bins.
     base_data lib = Inr (base, g) \<and>
     base ''int32'' = Some (Int32Array ints) \<and> length ints = 1000 \<and>
     (\<forall>v\<in>set ints. 0 \<le> v \<and> v \<le> 10000) \<and>
     base ''float'' = Some (FloatArray floats) \<and> length floats = 1000 \<and>
     (\<forall>x\<in>set floats. 0 \<le> x \<and> x < 100) \<and>
     base ''binary'' = Some (BinaryArray bins) \<and> length bins = 1000 \<and>
     (\<forall>b\<in>set bins. 3 \<le> length b \<and> length b \<le> 15 \<and>
        (\<forall>c\<in>set b. 0 \<le> uint c \<and> uint c \<le> 255))"
proof -
  from assms obtain a1 a2 a3 a4 a5 g where
    b: "base_data lib =
       Inr ([''int32'' \<mapsto> Int32Array a1, ''float'' \<mapsto> FloatArray a2,
             ''int64'' \<mapsto> Int64Array a3, ''string'' \<mapsto> StringArray a4,
             ''binary'' \<mapsto> BinaryArray a5], g)"
    and 1: "length a1 = 1000" "list_all (\<lambda>v. 0 \<le> v \<and> v \<le> 10000) a1"
    and 2: "length a2 = 1000" "list_all (\<lambda>v. 0 \<le> v \<and> v < 100) a2"
    and "length a3 = 1000" "list_all (\<lambda>v. \<exists>r. v = shift_int64 r) a3"
    and "length a4 = 1000"
      "list_all (\<lambda>v. \<exists>n r. v = replicate n (letter r) \<and> 5 \<le> n \<and> n \<le> 10) a4"
    and 5: "length a5 = 1000" "list_all (\<lambda>v. 3 \<le> length v \<and> length v \<le> 15) a5"
    by (rule base_data_columns)
  let ?base = "[''int32'' \<mapsto> Int32Array a1, ''float'' \<mapsto> FloatArray a2,
             ''int64'' \<mapsto> Int64Array a3, ''string'' \<mapsto> StringArray a4,
             ''binary'' \<mapsto> BinaryArray a5]"
  have i: "?base ''int32'' = Some (Int32Array a1)" by simp
  have f: "?base ''float'' = Some (FloatArray a2)" by simp
  have n: "?base ''binary'' = Some (BinaryArray a5)" by simp
  have r1: "\<forall>v\<in>set a1. 0 \<le> v \<and> v \<le> 10000" using 1(2) by (simp add: list_all_iff)
  have r2: "\<forall>x\<in>set a2. 0 \<le> x \<and> x < 100" using 2(2) by (simp add: list_all_iff)
  have r5: "\<forall>b\<in>set a5. 3 \<le> length b \<and> length b \<le> 15 \<and>
        (\<forall>c\<in>set b. 0 \<le> uint c \<and> uint c \<le> 255)"
    using 5(2) byte_range by (simp add: list_all_iff)
  from b i 1(1) r1 f 2(1) r2 n 5(1) r5 show ?thesis by blast
qed

theorem generated_value_ranges_witness:
  "distributions_conform lcg_library \<and>
   int32_value lcg_library 0 = Inr (2843, 1013904223) \<and>
   (\<exists>base g ints floats bins.
     base_data lcg_library = Inr (base, g) \<and>
     base ''int32'' = Some (Int32Array ints) \<and> length ints = 1000 \<and>
     (\<forall>v\<in>set ints. 0 \<le> v \<and> v \<le> 10000) \<and>
     base ''float'' = Some (FloatArray floats) \<and> length floats = 1000 \<and>
     (\<forall>x\<in>set floats. 0 \<le> x \<and> x < 100) \<and>
     base ''binary'' = Some (BinaryArray bins) \<and> length bins = 1000 \<and>
     (\<forall>b\<in>set bins. 3 \<le> length b \<and> length b \<le> 15 \<and>
        (\<forall>c\<in>set b. 0 \<le> uint c \<and> uint c \<le> 255)))"
proof -
  have v: "int32_value lcg_library 0 = Inr (2843, 1013904223)"
    by (simp add: int32_value_def lcg_library_def lcg_step_def)
  from generated_value_ranges [OF lcg_library_conform] lcg_library_conform v
  show ?thesis by blast
qed

text \<open>
  C5. Each text value is one letter repeated: its length is the draw of the integer
  distribution on \<open>[5, 10]\<close>, its character is chosen once, as \<open>'a' + (r mod 26)\<close> for
  the one generator output \<open>r\<close> drawn after the length, and is a lowercase letter. With
  conforming distributions all 1000 values of the string column have this shape.
\<close>

theorem generated_strings:
  assumes "distributions_conform lib"
  shows "(\<forall>g. \<exists>len g1 r g2.
       uniform_int_distribution lib 5 10 g = (len, g1) \<and> rng_call lib g1 = (r, g2) \<and>
       5 \<le> len \<and> len \<le> 10 \<and>
       string_value lib g = Inr (replicate (nat len) (letter r), g2)) \<and>
    (\<forall>r. of_char (letter r) = (of_char CHR ''a'' :: nat) + unat r mod 26 \<and>
       letter r \<in> set ''abcdefghijklmnopqrstuvwxyz'') \<and>
    (\<exists>base g strs. base_data lib = Inr (base, g) \<and>
       base ''string'' = Some (StringArray strs) \<and> length strs = 1000 \<and>
       (\<forall>s\<in>set strs. \<exists>n r. s = replicate n (letter r) \<and> 5 \<le> n \<and> n \<le> 10))"
proof (intro conjI allI)
  fix g
  obtain len g1 where u: "uniform_int_distribution lib 5 10 g = (len, g1)" by force
  obtain r g2 where c: "rng_call lib g1 = (r, g2)" by force
  from assms have "5 \<le> fst (uniform_int_distribution lib 5 10 g) \<and>
      fst (uniform_int_distribution lib 5 10 g) \<le> 10"
    unfolding distributions_conform_def by simp
  with u have b: "5 \<le> len" "len \<le> 10" by simp_all
  then have "string_value lib g = Inr (replicate (nat len) (letter r), g2)"
    using u c by (simp add: string_value_def)
  with u c b show "\<exists>len g1 r g2.
       uniform_int_distribution lib 5 10 g = (len, g1) \<and> rng_call lib g1 = (r, g2) \<and>
       5 \<le> len \<and> len \<le> 10 \<and>
       string_value lib g = Inr (replicate (nat len) (letter r), g2)"
    by blast
next
  fix r
  show "of_char (letter r) = (of_char CHR ''a'' :: nat) + unat r mod 26"
    by (rule letter_code)
  show "letter r \<in> set ''abcdefghijklmnopqrstuvwxyz''"
    by (rule letter_lowercase)
next
  from assms obtain a1 a2 a3 a4 a5 g where
    b: "base_data lib =
       Inr ([''int32'' \<mapsto> Int32Array a1, ''float'' \<mapsto> FloatArray a2,
             ''int64'' \<mapsto> Int64Array a3, ''string'' \<mapsto> StringArray a4,
             ''binary'' \<mapsto> BinaryArray a5], g)"
    and "length a1 = 1000" "list_all (\<lambda>v. 0 \<le> v \<and> v \<le> 10000) a1"
    and "length a2 = 1000" "list_all (\<lambda>v. 0 \<le> v \<and> v < 100) a2"
    and "length a3 = 1000" "list_all (\<lambda>v. \<exists>r. v = shift_int64 r) a3"
    and 4: "length a4 = 1000"
      "list_all (\<lambda>v. \<exists>n r. v = replicate n (letter r) \<and> 5 \<le> n \<and> n \<le> 10) a4"
    and "length a5 = 1000" "list_all (\<lambda>v. 3 \<le> length v \<and> length v \<le> 15) a5"
    by (rule base_data_columns)
  let ?base = "[''int32'' \<mapsto> Int32Array a1, ''float'' \<mapsto> FloatArray a2,
             ''int64'' \<mapsto> Int64Array a3, ''string'' \<mapsto> StringArray a4,
             ''binary'' \<mapsto> BinaryArray a5]"
  have s: "?base ''string'' = Some (StringArray a4)" by simp
  have r4: "\<forall>s\<in>set a4. \<exists>n r. s = replicate n (letter r) \<and> 5 \<le> n \<and> n \<le> 10"
    using 4(2) by (simp add: list_all_iff)
  from b s 4(1) r4 show "\<exists>base g strs. base_data lib = Inr (base, g) \<and>
       base ''string'' = Some (StringArray strs) \<and> length strs = 1000 \<and>
       (\<forall>s\<in>set strs. \<exists>n r. s = replicate n (letter r) \<and> 5 \<le> n \<and> n \<le> 10)"
    by blast
qed

theorem generated_strings_witness:
  "distributions_conform lcg_library \<and>
   string_value lcg_library 0 = Inr (''cccccc'', 1196435762) \<and>
   (\<exists>base g strs. base_data lcg_library = Inr (base, g) \<and>
       base ''string'' = Some (StringArray strs) \<and> length strs = 1000 \<and>
       (\<forall>s\<in>set strs. \<exists>n r. s = replicate n (letter r) \<and> 5 \<le> n \<and> n \<le> 10))"
proof -
  note t = generated_strings [OF lcg_library_conform]
  from t obtain len g1 r g2 where
    u: "uniform_int_distribution lcg_library 5 10 0 = (len, g1)"
    and c: "rng_call lcg_library g1 = (r, g2)"
    and s: "string_value lcg_library 0 = Inr (replicate (nat len) (letter r), g2)"
    by blast
  from u have "len = 6" "g1 = 1013904223"
    by (simp_all add: lcg_library_def lcg_step_def)
  with c have "r = 1196435762" "g2 = 1196435762"
    by (simp_all add: lcg_library_def lcg_step_def)
  moreover have "of_char (letter 1196435762) = (of_char CHR ''c'' :: nat)"
    by (simp add: letter_code)
  then have "letter 1196435762 = CHR ''c''"
    by (simp only: of_char_eq_iff)
  moreover have "replicate (nat 6) (CHR ''c'') = ''cccccc''"
    by code_simp
  ultimately have "string_value lcg_library 0 = Inr (''cccccc'', 1196435762)"
    using s \<open>len = 6\<close> by (simp only:)
  with t lcg_library_conform show ?thesis by blast
qed

text \<open>
  C6. Each 64-bit value is a 32-bit output of the generator, converted to 64 bits and
  shifted left by 8 bits: that is what one call of the lambda returns, and with conforming
  distributions the int64 column is the 1000 outputs the generator gives from the state
  the int32 and float columns left, each shifted. For every 32-bit output \<open>r\<close> the shifted
  value, read as a signed 64-bit integer, is exactly \<open>r * 256\<close>: nothing overflows and
  nothing is cut off, so it is non-negative, a multiple of 256 and at most
  \<open>(2 ^ 32 - 1) * 256\<close>.
\<close>

theorem int64_values:
  assumes "distributions_conform lib"
  shows "(\<forall>r. sint (shift_int64 r) = uint r * 2 ^ 8 \<and> 0 \<le> sint (shift_int64 r) \<and>
        256 dvd sint (shift_int64 r) \<and> sint (shift_int64 r) \<le> (2 ^ 32 - 1) * 256) \<and>
    (\<forall>g. int64_value lib g =
        Inr (shift_int64 (fst (rng_call lib g)), snd (rng_call lib g))) \<and>
    (let g0 = rng_init lib 42;
         g1 = state_after (uniform_int_distribution lib 0 10000) g0 1000;
         g2 = state_after (uniform_real_distribution lib 0 100) g1 1000;
         outputs = drawn (rng_call lib) g2 1000
     in length outputs = 1000 \<and>
        (\<exists>base g. base_data lib = Inr (base, g) \<and>
           base ''int64'' = Some (Int64Array (map shift_int64 outputs))))"
proof (intro conjI allI)
  fix r :: "32 word"
  show "sint (shift_int64 r) = uint r * 2 ^ 8" by (simp add: sint_shift_int64)
  show "0 \<le> sint (shift_int64 r)" "256 dvd sint (shift_int64 r)"
    "sint (shift_int64 r) \<le> (2 ^ 32 - 1) * 256"
    using shift_int64_bounds [of r] by simp_all
next
  fix g
  show "int64_value lib g = Inr (shift_int64 (fst (rng_call lib g)), snd (rng_call lib g))"
    by (rule int64_value_draw)
next
  show "let g0 = rng_init lib 42;
         g1 = state_after (uniform_int_distribution lib 0 10000) g0 1000;
         g2 = state_after (uniform_real_distribution lib 0 100) g1 1000;
         outputs = drawn (rng_call lib) g2 1000
     in length outputs = 1000 \<and>
        (\<exists>base g. base_data lib = Inr (base, g) \<and>
           base ''int64'' = Some (Int64Array (map shift_int64 outputs)))"
    by (simp add: base_data_drawn [OF assms] Let_def length_drawn)
qed

theorem int64_values_witness:
  "distributions_conform lcg_library \<and>
   sint (shift_int64 4292449265) = 1098867011840 \<and>
   int64_value lcg_library 1000 = Inr (685677881088, 2678429223) \<and>
   (\<exists>base g. base_data lcg_library = Inr (base, g) \<and>
      base ''int64'' = Some (Int64Array (map shift_int64
        (drawn (rng_call lcg_library)
          (state_after (uniform_real_distribution lcg_library 0 100)
            (state_after (uniform_int_distribution lcg_library 0 10000)
              (rng_init lcg_library 42) 1000) 1000) 1000))))"
proof -
  note t = int64_values [OF lcg_library_conform]
  from t have "sint (shift_int64 4292449265) = uint (4292449265 :: 32 word) * 2 ^ 8"
    by blast
  then have 1: "sint (shift_int64 4292449265) = 1098867011840" by simp
  from t have "int64_value lcg_library 1000 =
      Inr (shift_int64 (fst (rng_call lcg_library 1000)), snd (rng_call lcg_library 1000))"
    by blast
  moreover have "rng_call lcg_library 1000 = (2678429223, 2678429223)"
    by (simp add: lcg_library_def lcg_step_def)
  moreover have "shift_int64 2678429223 = 685677881088"
    by (simp add: shift_int64_def)
  ultimately have 2: "int64_value lcg_library 1000 = Inr (685677881088, 2678429223)"
    by simp
  from t have 3: "\<exists>base g. base_data lcg_library = Inr (base, g) \<and>
      base ''int64'' = Some (Int64Array (map shift_int64
        (drawn (rng_call lcg_library)
          (state_after (uniform_real_distribution lcg_library 0 100)
            (state_after (uniform_int_distribution lcg_library 0 10000)
              (rng_init lcg_library 42) 1000) 1000) 1000)))"
    by (simp only: Let_def)
  from lcg_library_conform 1 2 3 show ?thesis by (intro conjI)
qed

text \<open>
  C7. With conforming distributions the five columns are the draws from one random source,
  in the order int32, float, int64, string, binary: the source starts in the state seeded
  with 42; the int32 column is the first 1000 draws of the integer distribution on
  \<open>[0, 10000]\<close> and leaves the source in the state after them; the float column is the
  1000 draws of the real distribution on \<open>[0, 100)\<close> from that state; then come 1000
  outputs of the generator, shifted, 1000 text values and 1000 binary values, each column
  from the state the one before it left, each value from the state the value before it
  left. Each column is stored once, under its type name, with 1000 values. The columns do
  not depend on the writer, and the files are written only after all five columns exist.
\<close>

theorem generation_order:
  assumes "distributions_conform lib"
  shows "let g0 = rng_init lib 42;
         g1 = state_after (uniform_int_distribution lib 0 10000) g0 1000;
         g2 = state_after (uniform_real_distribution lib 0 100) g1 1000;
         g3 = state_after (rng_call lib) g2 1000;
         g4 = state_after (string_draw lib) g3 1000;
         g5 = state_after (binary_draw lib) g4 1000;
         a1 = drawn (uniform_int_distribution lib 0 10000) g0 1000;
         a2 = drawn (uniform_real_distribution lib 0 100) g1 1000;
         a3 = map shift_int64 (drawn (rng_call lib) g2 1000);
         a4 = drawn (string_draw lib) g3 1000;
         a5 = drawn (binary_draw lib) g4 1000;
         base = [''int32'' \<mapsto> Int32Array a1, ''float'' \<mapsto> FloatArray a2,
                 ''int64'' \<mapsto> Int64Array a3, ''string'' \<mapsto> StringArray a4,
                 ''binary'' \<mapsto> BinaryArray a5]
     in base_data lib = Inr (base, g5) \<and>
        length a1 = 1000 \<and> length a2 = 1000 \<and> length a3 = 1000 \<and> length a4 = 1000 \<and>
        length a5 = 1000 \<and>
        (\<forall>w. base_data (lib\<lparr>WriteTable := w\<rparr>) = base_data lib) \<and>
        (\<forall>fs. main lib fs = write_all lib base specs \<lparr>files = fs, stdout = []\<rparr>)"
proof -
  note b = base_data_drawn [OF assms, unfolded Let_def]
  have m: "\<forall>fs. main lib fs = write_all lib base specs \<lparr>files = fs, stdout = []\<rparr>"
    if "base_data lib = Inr (base, g)" for base g
    using main_after_base_data [OF that] by simp
  show ?thesis
    unfolding Let_def
    by (intro conjI b m [OF b] length_drawn) (simp_all add: length_drawn base_data_WriteTable)
qed

theorem generation_order_witness:
  "distributions_conform lcg_library \<and>
   (\<exists>base g a1. base_data lcg_library = Inr (base, g) \<and>
      base ''int32'' = Some (Int32Array a1) \<and> length a1 = 1000 \<and>
      a1 ! 0 = 5903 \<and> a1 ! 1 = 6343)"
proof -
  let ?d = "uniform_int_distribution lcg_library 0 10000"
  let ?g0 = "rng_init lcg_library 42"
  note t = generation_order [OF lcg_library_conform, unfolded Let_def]
  from t have b: "\<exists>base g. base_data lcg_library = Inr (base, g) \<and>
      base ''int32'' = Some (Int32Array (drawn ?d ?g0 1000))"
    by simp
  have l: "length (drawn ?d ?g0 1000) = 1000" by (rule length_drawn)
  have g0: "?g0 = 42" by (simp add: lcg_library_def)
  have "drawn ?d ?g0 1000 ! 0 = fst (?d (state_after ?d ?g0 0))"
    by (rule drawn_nth) simp
  then have v0: "drawn ?d ?g0 1000 ! 0 = 5903"
    by (simp add: state_after_0 g0) (simp add: lcg_library_def lcg_step_def)
  have "drawn ?d ?g0 1000 ! 1 = fst (?d (state_after ?d ?g0 (Suc 0)))"
    using drawn_nth [of "Suc 0" 1000 ?d ?g0] by simp
  then have v1: "drawn ?d ?g0 1000 ! 1 = 6343"
    by (simp add: state_after_0 state_after_Suc g0) (simp add: lcg_library_def lcg_step_def)
  from b l v0 v1 lcg_library_conform show ?thesis by blast
qed

text \<open>
  C8. When the open or the write fails for a specification of the table, after the
  specifications before it succeeded, the program ends there with that exception, in the
  state the failed call left: standard output holds the lines of the earlier
  specifications and none for the failed one; after a failed open the file system is as
  the directory creation left it; after a failed write the file holds what the writer had
  produced, and every other path is as before; the files of the later specifications are
  untouched.
\<close>

theorem failure_aborts_run:
  assumes "base_data lib = Inr (base, g)"
    and "specs = pre @ spec # post"
    and "write_all lib base pre \<lparr>files = fs, stdout = []\<rparr> = (None, s1)"
    and "base (type_name spec) = Some arr"
    and "write_parquet lib spec arr s1 = (Some e, s2)"
    and "e = Open_failed \<or> e = Write_failed"
  shows "main lib fs = (Some e, s2) \<and>
     stdout s2 = concat (map wrote_line pre) \<and>
     (e = Open_failed \<longrightarrow>
        create_directory lib (directory_of spec) (files s1) = Inr (files s2)) \<and>
     (e = Write_failed \<longrightarrow>
        files s2 (filename_of spec) = Some (Regular_file (written_bytes lib spec arr))) \<and>
     (\<forall>p. p \<noteq> directory_of spec \<and> p \<noteq> filename_of spec \<longrightarrow> files s2 p = files s1 p) \<and>
     (\<forall>y\<in>set post. files s2 (filename_of y) = files s1 (filename_of y))"
proof -
  have "main lib fs = write_all lib base (pre @ spec # post) \<lparr>files = fs, stdout = []\<rparr>"
    using main_after_base_data [OF assms(1)] assms(2) by simp
  also have "\<dots> = (Some e, s2)"
    using assms(3,4,5) by (rule write_all_append_failure)
  finally have m: "main lib fs = (Some e, s2)" .
  have "stdout s2 = stdout s1"
    using assms(5) by (rule write_parquet_stdout_failed)
  also have "\<dots> = concat (map wrote_line pre)"
    using write_all_stdout [OF assms(3)] by simp
  finally have out: "stdout s2 = concat (map wrote_line pre)" .
  have "spec \<in> set (pre @ spec # post)" by simp
  then have "spec \<in> set specs" unfolding assms(2) [symmetric] .
  with specs_plain_names have pn: "plain_names spec" by blast
  then have nf: "normalize (filename_of spec) = filename_of spec"
    by (simp add: plain_names_def)
  note ff = write_parquet_failure_files [OF assms(5), unfolded nf]
  have frame: "\<forall>p. p \<noteq> directory_of spec \<and> p \<noteq> filename_of spec \<longrightarrow> files s2 p = files s1 p"
    using write_parquet_frame [OF assms(5) pn] by blast
  have later: "\<forall>y\<in>set post. files s2 (filename_of y) = files s1 (filename_of y)"
  proof
    fix y assume y: "y \<in> set post"
    from specs_filenames_distinct assms(2) have "distinct (map filename_of (pre @ spec # post))"
      by simp
    then have "filename_of spec \<notin> filename_of ` set post" by simp
    with y have 1: "filename_of y \<noteq> filename_of spec" by (metis imageI)
    from y have "y \<in> set (pre @ spec # post)" "spec \<in> set (pre @ spec # post)"
      by simp_all
    then have "y \<in> set specs" "spec \<in> set specs"
      unfolding assms(2) [symmetric] .
    with specs_filename_not_directory have 2: "filename_of y \<noteq> directory_of spec" by blast
    from assms(5) pn 2 1 show "files s2 (filename_of y) = files s1 (filename_of y)"
      by (rule write_parquet_frame)
  qed
  from m out ff frame later show ?thesis by (intro conjI) simp_all
qed

theorem failure_aborts_run_witness:
  "(\<exists>s2. main (lcg_library\<lparr>WriteTable := \<lambda>t n props. (field_type t \<noteq> Float32, [80, 65])\<rparr>)
            [''data'' \<mapsto> Directory] = (Some Write_failed, s2) \<and>
      stdout s2 = ''Wrote data/PLAIN/string.parquet'' @ [CHR 0x0A] \<and>
      files s2 ''data/PLAIN/float.parquet'' = Some (Regular_file [80, 65]) \<and>
      files s2 ''data/PLAIN/int32.parquet'' = None) \<and>
   (\<exists>s2. main lcg_library
            [''data'' \<mapsto> Directory, ''data/PLAIN'' \<mapsto> Directory,
             ''data/PLAIN/string.parquet'' \<mapsto> Directory] = (Some Open_failed, s2) \<and>
      stdout s2 = [] \<and>
      files s2 ''data/PLAIN/string.parquet'' = Some Directory \<and>
      files s2 ''data/PLAIN/float.parquet'' = None)"
proof
  let ?L = "lcg_library\<lparr>WriteTable := \<lambda>t n props. (field_type t \<noteq> Float32, [80, 65])\<rparr>"
  let ?fs = "[''data'' \<mapsto> Directory]"
  have "distributions_conform ?L"
    using lcg_library_conform by (simp only: distributions_conform_WriteTable)
  then obtain a1 a2 a3 a4 a5 g where
    b: "base_data ?L =
       Inr ([''int32'' \<mapsto> Int32Array a1, ''float'' \<mapsto> FloatArray a2,
             ''int64'' \<mapsto> Int64Array a3, ''string'' \<mapsto> StringArray a4,
             ''binary'' \<mapsto> BinaryArray a5], g)"
    and "length a1 = 1000" "list_all (\<lambda>v. 0 \<le> v \<and> v \<le> 10000) a1"
    and "length a2 = 1000" "list_all (\<lambda>v. 0 \<le> v \<and> v < 100) a2"
    and "length a3 = 1000" "list_all (\<lambda>v. \<exists>r. v = shift_int64 r) a3"
    and "length a4 = 1000"
      "list_all (\<lambda>v. \<exists>n r. v = replicate n (letter r) \<and> 5 \<le> n \<and> n \<le> 10) a4"
    and "length a5 = 1000" "list_all (\<lambda>v. 3 \<le> length v \<and> length v \<le> 15) a5"
    by (rule base_data_columns)
  let ?base = "[''int32'' \<mapsto> Int32Array a1, ''float'' \<mapsto> FloatArray a2,
             ''int64'' \<mapsto> Int64Array a3, ''string'' \<mapsto> StringArray a4,
             ''binary'' \<mapsto> BinaryArray a5]"
  let ?s1 = "\<lparr>files = [''data'' \<mapsto> Directory, ''data/PLAIN'' \<mapsto> Directory,
                        ''data/PLAIN/string.parquet'' \<mapsto> Regular_file [80, 65]],
              stdout = ''Wrote data/PLAIN/string.parquet'' @ [CHR 0x0A]\<rparr>"
  let ?s2 = "\<lparr>files = [''data'' \<mapsto> Directory, ''data/PLAIN'' \<mapsto> Directory,
                        ''data/PLAIN/string.parquet'' \<mapsto> Regular_file [80, 65],
                        ''data/PLAIN/float.parquet'' \<mapsto> Regular_file [80, 65]],
              stdout = ''Wrote data/PLAIN/string.parquet'' @ [CHR 0x0A]\<rparr>"
  have sp: "specs = [specs ! 0] @ specs ! 1 # drop 2 specs"
    by (simp add: specs_def)
  have s0: "specs ! 0 = mk_spec ''PLAIN'' PLAIN ''string'' Utf8"
    and s1: "specs ! 1 = mk_spec ''PLAIN'' PLAIN ''float'' Float32"
    by (simp_all add: specs_def)
  have pre: "write_all ?L ?base [specs ! 0] \<lparr>files = ?fs, stdout = []\<rparr> = (None, ?s1)"
    unfolding s0
    by (simp add: mk_spec_def write_parquet_def directory_of_def filename_of_def
        create_directory_def FileOutputStream_Open_def is_directory_def parent_path_def
        build_properties_def Let_def lcg_library_def)
  have arr: "?base (type_name (specs ! 1)) = Some (FloatArray a2)"
    unfolding s1 by (simp add: mk_spec_def)
  have fail: "write_parquet ?L (specs ! 1) (FloatArray a2) ?s1 = (Some Write_failed, ?s2)"
    unfolding s1
    by (simp add: mk_spec_def write_parquet_def directory_of_def filename_of_def
        create_directory_def FileOutputStream_Open_def is_directory_def parent_path_def
        build_properties_def Let_def lcg_library_def fun_upd_twist)
  have "Write_failed = Open_failed \<or> Write_failed = Write_failed" by simp
  note t = failure_aborts_run [OF b sp pre arr fail this]
  then have "main ?L ?fs = (Some Write_failed, ?s2)" by (rule conjunct1)
  moreover have "stdout ?s2 = ''Wrote data/PLAIN/string.parquet'' @ [CHR 0x0A]" by simp
  moreover have "files ?s2 ''data/PLAIN/float.parquet'' = Some (Regular_file [80, 65])"
    by simp
  moreover have "files ?s2 ''data/PLAIN/int32.parquet'' = None" by simp
  ultimately show "\<exists>s2. main ?L ?fs = (Some Write_failed, s2) \<and>
      stdout s2 = ''Wrote data/PLAIN/string.parquet'' @ [CHR 0x0A] \<and>
      files s2 ''data/PLAIN/float.parquet'' = Some (Regular_file [80, 65]) \<and>
      files s2 ''data/PLAIN/int32.parquet'' = None"
    by (intro exI [of _ ?s2] conjI)
next
  let ?fs = "[''data'' \<mapsto> Directory, ''data/PLAIN'' \<mapsto> Directory,
             ''data/PLAIN/string.parquet'' \<mapsto> Directory]"
  from lcg_library_conform obtain a1 a2 a3 a4 a5 g where
    b: "base_data lcg_library =
       Inr ([''int32'' \<mapsto> Int32Array a1, ''float'' \<mapsto> FloatArray a2,
             ''int64'' \<mapsto> Int64Array a3, ''string'' \<mapsto> StringArray a4,
             ''binary'' \<mapsto> BinaryArray a5], g)"
    and "length a1 = 1000" "list_all (\<lambda>v. 0 \<le> v \<and> v \<le> 10000) a1"
    and "length a2 = 1000" "list_all (\<lambda>v. 0 \<le> v \<and> v < 100) a2"
    and "length a3 = 1000" "list_all (\<lambda>v. \<exists>r. v = shift_int64 r) a3"
    and "length a4 = 1000"
      "list_all (\<lambda>v. \<exists>n r. v = replicate n (letter r) \<and> 5 \<le> n \<and> n \<le> 10) a4"
    and "length a5 = 1000" "list_all (\<lambda>v. 3 \<le> length v \<and> length v \<le> 15) a5"
    by (rule base_data_columns)
  let ?base = "[''int32'' \<mapsto> Int32Array a1, ''float'' \<mapsto> FloatArray a2,
             ''int64'' \<mapsto> Int64Array a3, ''string'' \<mapsto> StringArray a4,
             ''binary'' \<mapsto> BinaryArray a5]"
  let ?s0 = "\<lparr>files = ?fs, stdout = []\<rparr>"
  have sp: "specs = [] @ specs ! 0 # drop 1 specs"
    by (simp add: specs_def)
  have s0: "specs ! 0 = mk_spec ''PLAIN'' PLAIN ''string'' Utf8"
    by (simp add: specs_def)
  have pre: "write_all lcg_library ?base [] ?s0 = (None, ?s0)" by simp
  have arr: "?base (type_name (specs ! 0)) = Some (StringArray a4)"
    unfolding s0 by (simp add: mk_spec_def)
  have fail: "write_parquet lcg_library (specs ! 0) (StringArray a4) ?s0 = (Some Open_failed, ?s0)"
    unfolding s0
    by (simp add: mk_spec_def write_parquet_def directory_of_def filename_of_def
        create_directory_def FileOutputStream_Open_def is_directory_def parent_path_def
        build_properties_def Let_def lcg_library_def)
  have "Open_failed = Open_failed \<or> Open_failed = Write_failed" by simp
  note t = failure_aborts_run [OF b sp pre arr fail this]
  then have "main lcg_library ?fs = (Some Open_failed, ?s0)" by (rule conjunct1)
  moreover have "stdout ?s0 = []" by simp
  moreover have "files ?s0 ''data/PLAIN/string.parquet'' = Some Directory" by simp
  moreover have "files ?s0 ''data/PLAIN/float.parquet'' = None" by simp
  ultimately show "\<exists>s2. main lcg_library ?fs = (Some Open_failed, s2) \<and>
      stdout s2 = [] \<and>
      files s2 ''data/PLAIN/string.parquet'' = Some Directory \<and>
      files s2 ''data/PLAIN/float.parquet'' = None"
    by (intro exI [of _ ?s0] conjI)
qed

text \<open>
  C9. The program's output does not depend on anything but the library: whatever the file
  system was before, two runs that return print the same standard output, the lines
  \<open>Wrote data/<encoding-name>/<type-name>.parquet\<close> of the specifications in table order,
  and leave in the file of each specification the same bytes, those the writer produces
  for the specification and the one column stored under its type name.
\<close>

theorem runs_deterministic:
  assumes "main lib fs1 = (None, s1)" and "main lib fs2 = (None, s2)"
  shows "stdout s1 = concat (map wrote_line specs) \<and> stdout s2 = stdout s1 \<and>
     (\<forall>spec. wrote_line spec =
        ''Wrote data/'' @ encoding_name spec @ ''/'' @ type_name spec @ ''.parquet'' @
        [CHR 0x0A]) \<and>
     (\<exists>base g. base_data lib = Inr (base, g) \<and>
        (\<forall>spec\<in>set specs. \<exists>arr. base (type_name spec) = Some arr \<and>
           files s1 (filename_of spec) = Some (Regular_file (written_bytes lib spec arr)) \<and>
           files s2 (filename_of spec) = Some (Regular_file (written_bytes lib spec arr))))"
proof -
  obtain base g where b: "base_data lib = Inr (base, g)"
    using assms(1) by (cases "base_data lib") (auto simp: main_def)
  have m: "main lib fs = write_all lib base specs \<lparr>files = fs, stdout = []\<rparr>" for fs
    using b by (rule main_after_base_data)
  from assms have w1: "write_all lib base specs \<lparr>files = fs1, stdout = []\<rparr> = (None, s1)"
    and w2: "write_all lib base specs \<lparr>files = fs2, stdout = []\<rparr> = (None, s2)"
    by (simp_all add: m)
  have o1: "stdout s1 = concat (map wrote_line specs)"
    using write_all_stdout [OF w1] by simp
  have o2: "stdout s2 = concat (map wrote_line specs)"
    using write_all_stdout [OF w2] by simp
  have l: "\<forall>spec. wrote_line spec =
        ''Wrote data/'' @ encoding_name spec @ ''/'' @ type_name spec @ ''.parquet'' @
        [CHR 0x0A]"
    by (simp add: wrote_line_def filename_of_def)
  have f: "\<forall>spec\<in>set specs. \<exists>arr. base (type_name spec) = Some arr \<and>
           files s1 (filename_of spec) = Some (Regular_file (written_bytes lib spec arr)) \<and>
           files s2 (filename_of spec) = Some (Regular_file (written_bytes lib spec arr))"
  proof
    fix spec assume s: "spec \<in> set specs"
    from w1 specs_plain_names specs_filenames_distinct specs_filename_not_directory s
    obtain arr where 1: "base (type_name spec) = Some arr"
      "files s1 (filename_of spec) = Some (Regular_file (written_bytes lib spec arr))"
      using write_all_files by blast
    from w2 specs_plain_names specs_filenames_distinct specs_filename_not_directory s
    obtain arr' where 2: "base (type_name spec) = Some arr'"
      "files s2 (filename_of spec) = Some (Regular_file (written_bytes lib spec arr'))"
      using write_all_files by blast
    from 1 2 have "arr' = arr" by simp
    with 1 2 show "\<exists>arr. base (type_name spec) = Some arr \<and>
           files s1 (filename_of spec) = Some (Regular_file (written_bytes lib spec arr)) \<and>
           files s2 (filename_of spec) = Some (Regular_file (written_bytes lib spec arr))"
      by blast
  qed
  from o1 o2 l b f show ?thesis by (intro conjI exI [of _ base] exI [of _ g]) simp_all
qed

theorem runs_deterministic_witness:
  "\<exists>s1 s2.
     main lcg_library [''data'' \<mapsto> Directory] = (None, s1) \<and>
     main lcg_library [''data'' \<mapsto> Directory, ''data/PLAIN'' \<mapsto> Directory,
        ''data/PLAIN/string.parquet'' \<mapsto> Regular_file [0]] = (None, s2) \<and>
     stdout s1 = concat (map wrote_line specs) \<and> stdout s2 = stdout s1 \<and>
     files s1 ''data/PLAIN/string.parquet'' = Some (Regular_file [80, 65, 82, 49]) \<and>
     files s2 ''data/PLAIN/string.parquet'' = Some (Regular_file [80, 65, 82, 49])"
proof -
  let ?fs1 = "[''data'' \<mapsto> Directory]"
  let ?fs2 = "[''data'' \<mapsto> Directory, ''data/PLAIN'' \<mapsto> Directory,
        ''data/PLAIN/string.parquet'' \<mapsto> Regular_file [0]]"
  have r1: "\<forall>x\<in>set specs. ready ?fs1 x"
    by (simp add: specs_def mk_spec_def ready_def directory_of_def filename_of_def)
  have r2: "\<forall>x\<in>set specs. ready ?fs2 x"
    by (simp add: specs_def mk_spec_def ready_def directory_of_def filename_of_def)
  have "fst (main lcg_library ?fs1) = None"
    using lcg_library_conform lcg_library_writes _ r1 lcg_library_permits
    by (rule main_succeeds) simp
  then obtain s1 where m1: "main lcg_library ?fs1 = (None, s1)"
    by (cases "main lcg_library ?fs1") simp
  have "fst (main lcg_library ?fs2) = None"
    using lcg_library_conform lcg_library_writes _ r2 lcg_library_permits
    by (rule main_succeeds) simp
  then obtain s2 where m2: "main lcg_library ?fs2 = (None, s2)"
    by (cases "main lcg_library ?fs2") simp
  note t = runs_deterministic [OF m1 m2]
  from t have o: "stdout s1 = concat (map wrote_line specs)" "stdout s2 = stdout s1"
    by simp_all
  have s0: "specs ! 0 \<in> set specs" by (simp add: specs_def)
  have f0: "filename_of (specs ! 0) = ''data/PLAIN/string.parquet''"
    by (simp add: specs_def mk_spec_def filename_of_def)
  from t s0 obtain arr where
    "files s1 (filename_of (specs ! 0)) = Some (Regular_file (written_bytes lcg_library (specs ! 0) arr))"
    "files s2 (filename_of (specs ! 0)) = Some (Regular_file (written_bytes lcg_library (specs ! 0) arr))"
    by blast
  moreover have "written_bytes lcg_library (specs ! 0) arr = [80, 65, 82, 49]"
    by (simp add: written_bytes_def lcg_library_def)
  ultimately have "files s1 ''data/PLAIN/string.parquet'' = Some (Regular_file [80, 65, 82, 49])"
    "files s2 ''data/PLAIN/string.parquet'' = Some (Regular_file [80, 65, 82, 49])"
    by (simp_all only: f0)
  with m1 m2 o show ?thesis by (intro exI [of _ s1] exI [of _ s2] conjI)
qed

text \<open>
  C10. With conforming distributions the pre-generated columns are stored under exactly the
  five keys "int32", "float", "int64", "string" and "binary". Every specification of the
  table names one of them, and the column found there has the specification's Arrow type,
  so the lookup never throws: the program never ends with \<open>Out_of_range\<close>. In a run that
  returns, the file of each specification holds what the writer made of the column stored
  under the specification's type name.
\<close>

theorem lookup_never_fails:
  assumes "distributions_conform lib"
  shows "\<exists>base g. base_data lib = Inr (base, g) \<and>
     dom base = {''int32'', ''float'', ''int64'', ''string'', ''binary''} \<and>
     length specs = 22 \<and>
     (\<forall>spec\<in>set specs. \<exists>arr. base (type_name spec) = Some arr \<and>
        array_type arr = arrow_type spec) \<and>
     (\<forall>fs. fst (main lib fs) \<noteq> Some Out_of_range) \<and>
     (\<forall>fs s. main lib fs = (None, s) \<longrightarrow>
        (\<forall>spec\<in>set specs. \<exists>arr. base (type_name spec) = Some arr \<and>
           files s (filename_of spec) = Some (Regular_file (written_bytes lib spec arr))))"
proof -
  from assms obtain a1 a2 a3 a4 a5 g where
    b: "base_data lib =
       Inr ([''int32'' \<mapsto> Int32Array a1, ''float'' \<mapsto> FloatArray a2,
             ''int64'' \<mapsto> Int64Array a3, ''string'' \<mapsto> StringArray a4,
             ''binary'' \<mapsto> BinaryArray a5], g)"
    and "length a1 = 1000" "list_all (\<lambda>v. 0 \<le> v \<and> v \<le> 10000) a1"
    and "length a2 = 1000" "list_all (\<lambda>v. 0 \<le> v \<and> v < 100) a2"
    and "length a3 = 1000" "list_all (\<lambda>v. \<exists>r. v = shift_int64 r) a3"
    and "length a4 = 1000"
      "list_all (\<lambda>v. \<exists>n r. v = replicate n (letter r) \<and> 5 \<le> n \<and> n \<le> 10) a4"
    and "length a5 = 1000" "list_all (\<lambda>v. 3 \<le> length v \<and> length v \<le> 15) a5"
    by (rule base_data_columns)
  define base where "base = [''int32'' \<mapsto> Int32Array a1, ''float'' \<mapsto> FloatArray a2,
             ''int64'' \<mapsto> Int64Array a3, ''string'' \<mapsto> StringArray a4,
             ''binary'' \<mapsto> BinaryArray a5]"
  from b have b': "base_data lib = Inr (base, g)" by (simp add: base_def)
  have d: "dom base = {''int32'', ''float'', ''int64'', ''string'', ''binary''}"
    unfolding base_def by auto
  have n: "length specs = 22" by (simp add: specs_def)
  have k: "\<forall>spec\<in>set specs. \<exists>arr. base (type_name spec) = Some arr \<and>
        array_type arr = arrow_type spec"
    unfolding base_def by (rule specs_lookup)
  then have k': "\<forall>x\<in>set specs. base (type_name x) \<noteq> None" by auto
  have m: "main lib fs = write_all lib base specs \<lparr>files = fs, stdout = []\<rparr>" for fs
    using b' by (rule main_after_base_data)
  have o: "\<forall>fs. fst (main lib fs) \<noteq> Some Out_of_range"
    using write_all_not_out_of_range [OF k', where lib = lib] by (simp add: m)
  have f: "\<forall>fs s. main lib fs = (None, s) \<longrightarrow>
        (\<forall>spec\<in>set specs. \<exists>arr. base (type_name spec) = Some arr \<and>
           files s (filename_of spec) = Some (Regular_file (written_bytes lib spec arr)))"
  proof (intro allI impI ballI)
    fix fs s spec
    assume "main lib fs = (None, s)" and "spec \<in> set specs"
    then have "write_all lib base specs \<lparr>files = fs, stdout = []\<rparr> = (None, s)"
      by (simp add: m)
    then show "\<exists>arr. base (type_name spec) = Some arr \<and>
           files s (filename_of spec) = Some (Regular_file (written_bytes lib spec arr))"
      using specs_plain_names specs_filenames_distinct specs_filename_not_directory
        \<open>spec \<in> set specs\<close>
      by (rule write_all_files)
  qed
  show ?thesis
    by (intro exI [of _ base] exI [of _ g] conjI b' d n k o f)
qed

theorem lookup_never_fails_witness:
  "distributions_conform lcg_library \<and>
   (\<exists>base g. base_data lcg_library = Inr (base, g) \<and>
     dom base = {''int32'', ''float'', ''int64'', ''string'', ''binary''} \<and>
     (\<exists>arr. base (type_name (specs ! 20)) = Some arr \<and> array_type arr = Int64) \<and>
     fst (main lcg_library Map.empty) \<noteq> Some Out_of_range)"
proof -
  from lookup_never_fails [OF lcg_library_conform] obtain base g where
    b: "base_data lcg_library = Inr (base, g)"
    and d: "dom base = {''int32'', ''float'', ''int64'', ''string'', ''binary''}"
    and k: "\<forall>spec\<in>set specs. \<exists>arr. base (type_name spec) = Some arr \<and>
        array_type arr = arrow_type spec"
    and o: "\<forall>fs. fst (main lcg_library fs) \<noteq> Some Out_of_range"
    by (elim exE conjE)
  have "specs ! 20 \<in> set specs" by (simp add: specs_def)
  with k have "\<exists>arr. base (type_name (specs ! 20)) = Some arr \<and>
      array_type arr = arrow_type (specs ! 20)" by blast
  moreover have "arrow_type (specs ! 20) = Int64" by (simp add: specs_def mk_spec_def)
  ultimately have "\<exists>arr. base (type_name (specs ! 20)) = Some arr \<and> array_type arr = Int64"
    by simp
  moreover from o have "fst (main lcg_library Map.empty) \<noteq> Some Out_of_range" ..
  ultimately show ?thesis
    using b d lcg_library_conform by (intro conjI exI [of _ base] exI [of _ g])
qed

end
